theory Spec2Isabelle
  imports Complex_Main
begin

section \<open>Values, tables and errors\<close>

text \<open>
  The program is glue code over pandas tables. A table (DataFrame) is modelled as the
  list of its column names together with the list of its rows, each row a dictionary from
  column name to cell. Rows carry no index label: every table the pipeline handles has the
  default positional index (read_csv, reset_index(drop=True)), so a row's label is its
  position.

  A float is an exact real or one of the special values inf, -inf, nan; rounding error is
  not modelled. \<open>I n\<close> is a whole number, whether pandas stores the column as int64 or
  as float64. Timestamps are nanoseconds since 1970-01-01T00:00, and \<open>NaT\<close> is the
  missing timestamp.
\<close>

datatype fnum = Fin real | PInf | NInf | NaN

datatype cell = S string | I int | F fnum | T int | NaT | B bool

type_synonym row = "string \<rightharpoonup> cell"

record frame =
  columns :: "string list"
  rows :: "row list"

datatype reason =
    MissingColumns "string set"
  | NotFitted string

datatype error =
    FileNotFoundError string
  | ValueError reason
  | KeyError string
  | TypeError string
  | AttributeError string
  | IntCastingNaNError
  | OutOfBoundsDatetime
  | IndexError
  | ParseError string
  | LibraryError string

text \<open>Sequencing of fallible steps: the first exception ends the computation.\<close>

definition bnd :: "error + 'a \<Rightarrow> ('a \<Rightarrow> error + 'b) \<Rightarrow> error + 'b" where
  "bnd m f = (case m of Inl e \<Rightarrow> Inl e | Inr x \<Rightarrow> f x)"

fun mapM :: "('a \<Rightarrow> error + 'b) \<Rightarrow> 'a list \<Rightarrow> error + 'b list" where
  "mapM f [] = Inr []"
| "mapM f (x # xs) = bnd (f x) (\<lambda>y. bnd (mapM f xs) (\<lambda>ys. Inr (y # ys)))"

subsection \<open>Float arithmetic with the special values\<close>

fun fneg :: "fnum \<Rightarrow> fnum" where
  "fneg (Fin a) = Fin (- a)"
| "fneg PInf = NInf"
| "fneg NInf = PInf"
| "fneg NaN = NaN"

fun fadd :: "fnum \<Rightarrow> fnum \<Rightarrow> fnum" where
  "fadd (Fin a) (Fin b) = Fin (a + b)"
| "fadd NaN _ = NaN"
| "fadd _ NaN = NaN"
| "fadd PInf NInf = NaN"
| "fadd NInf PInf = NaN"
| "fadd PInf _ = PInf"
| "fadd NInf _ = NInf"
| "fadd (Fin a) x = x"

definition fsub :: "fnum \<Rightarrow> fnum \<Rightarrow> fnum" where
  "fsub x y = fadd x (fneg y)"

fun fmul :: "fnum \<Rightarrow> fnum \<Rightarrow> fnum" where
  "fmul (Fin a) (Fin b) = Fin (a * b)"
| "fmul NaN _ = NaN"
| "fmul _ NaN = NaN"
| "fmul (Fin a) PInf = (if a = 0 then NaN else if 0 < a then PInf else NInf)"
| "fmul (Fin a) NInf = (if a = 0 then NaN else if 0 < a then NInf else PInf)"
| "fmul PInf (Fin b) = (if b = 0 then NaN else if 0 < b then PInf else NInf)"
| "fmul NInf (Fin b) = (if b = 0 then NaN else if 0 < b then NInf else PInf)"
| "fmul PInf PInf = PInf"
| "fmul PInf NInf = NInf"
| "fmul NInf PInf = NInf"
| "fmul NInf NInf = PInf"

text \<open>
  Division as numpy's true_divide: a zero divisor raises nothing, it gives nan for 0/0 and
  an infinity otherwise (zero is taken as +0.0).
\<close>

fun fdiv :: "fnum \<Rightarrow> fnum \<Rightarrow> fnum" where
  "fdiv (Fin a) (Fin b) =
     (if b \<noteq> 0 then Fin (a / b) else if a = 0 then NaN else if 0 < a then PInf else NInf)"
| "fdiv NaN _ = NaN"
| "fdiv _ NaN = NaN"
| "fdiv (Fin a) PInf = Fin 0"
| "fdiv (Fin a) NInf = Fin 0"
| "fdiv PInf (Fin b) = (if 0 \<le> b then PInf else NInf)"
| "fdiv NInf (Fin b) = (if 0 \<le> b then NInf else PInf)"
| "fdiv PInf _ = NaN"
| "fdiv NInf _ = NaN"

fun fsqrt :: "fnum \<Rightarrow> fnum" where
  "fsqrt (Fin a) = (if a < 0 then NaN else Fin (sqrt a))"
| "fsqrt PInf = PInf"
| "fsqrt NInf = NaN"
| "fsqrt NaN = NaN"

fun fabs :: "fnum \<Rightarrow> fnum" where
  "fabs (Fin a) = Fin \<bar>a\<bar>"
| "fabs PInf = PInf"
| "fabs NInf = PInf"
| "fabs NaN = NaN"

text \<open>\<open>x > y\<close>: every comparison with nan is False.\<close>

fun fge :: "fnum \<Rightarrow> fnum \<Rightarrow> bool" where
  "fge (Fin a) (Fin b) = (b \<le> a)"
| "fge NaN _ = False"
| "fge _ NaN = False"
| "fge PInf _ = True"
| "fge NInf NInf = True"
| "fge NInf _ = False"
| "fge (Fin a) PInf = False"
| "fge (Fin a) NInf = True"

fun fgt :: "fnum \<Rightarrow> fnum \<Rightarrow> bool" where
  "fgt (Fin a) (Fin b) = (b < a)"
| "fgt NaN _ = False"
| "fgt _ NaN = False"
| "fgt PInf PInf = False"
| "fgt PInf _ = True"
| "fgt NInf _ = False"
| "fgt (Fin a) PInf = False"
| "fgt (Fin a) NInf = True"

fun is_fin :: "fnum \<Rightarrow> bool" where
  "is_fin (Fin a) = True"
| "is_fin _ = False"

subsection \<open>Table primitives\<close>

text \<open>A cell a row does not hold reads as a missing value (nan).\<close>

definition cell_at :: "row \<Rightarrow> string \<Rightarrow> cell" where
  "cell_at r c = (case r c of Some v \<Rightarrow> v | None \<Rightarrow> F NaN)"

text \<open>\<open>df[c]\<close>, \<open>df[[c1, ..., ck]]\<close>, \<open>df[c] = values\<close>, \<open>df[mask]\<close>.\<close>

definition getitem :: "frame \<Rightarrow> string \<Rightarrow> error + cell list" where
  "getitem df c =
     (if c \<in> set (columns df) then Inr (map (\<lambda>r. cell_at r c) (rows df)) else Inl (KeyError c))"

definition getitems :: "frame \<Rightarrow> string list \<Rightarrow> error + frame" where
  "getitems df cs =
     (case filter (\<lambda>c. c \<notin> set (columns df)) cs of
        [] \<Rightarrow> Inr \<lparr>columns = cs, rows = map (\<lambda>r. r |` set cs) (rows df)\<rparr>
      | c # _ \<Rightarrow> Inl (KeyError c))"

text \<open>
  Every assignment in the source assigns a column computed from the same table, so the
  values are as many as the rows.
\<close>

definition setitem :: "frame \<Rightarrow> string \<Rightarrow> cell list \<Rightarrow> frame" where
  "setitem df c vs =
     \<lparr>columns = (if c \<in> set (columns df) then columns df else columns df @ [c]),
      rows = map (\<lambda>(r, v). r(c \<mapsto> v)) (zip (rows df) vs)\<rparr>"

definition select_mask :: "frame \<Rightarrow> bool list \<Rightarrow> frame" where
  "select_mask df bs = df\<lparr>rows := map fst (filter snd (zip (rows df) bs))\<rparr>"

text \<open>
  Python slices \<open>df.iloc[:k]\<close> and \<open>df.iloc[k:]\<close>: a negative bound counts from the end,
  and a bound beyond either end is clamped.
\<close>

definition slice_bound :: "nat \<Rightarrow> int \<Rightarrow> nat" where
  "slice_bound n k = nat (if k < 0 then max (int n + k) 0 else min k (int n))"

definition iloc_to :: "frame \<Rightarrow> int \<Rightarrow> frame" where
  "iloc_to df k = df\<lparr>rows := take (slice_bound (length (rows df)) k) (rows df)\<rparr>"

definition iloc_from :: "frame \<Rightarrow> int \<Rightarrow> frame" where
  "iloc_from df k = df\<lparr>rows := drop (slice_bound (length (rows df)) k) (rows df)\<rparr>"

text \<open>Reading cells at the type an operation needs; a cell of another type raises.\<close>

fun as_float :: "cell \<Rightarrow> error + fnum" where
  "as_float (I n) = Inr (Fin (of_int n))"
| "as_float (F x) = Inr x"
| "as_float _ = Inl (TypeError ''numeric column expected'')"

text \<open>A cell of a datetime column: a timestamp, or \<open>None\<close> for NaT.\<close>

fun as_ts :: "cell \<Rightarrow> error + int option" where
  "as_ts (T t) = Inr (Some t)"
| "as_ts NaT = Inr None"
| "as_ts _ = Inl (TypeError ''datetime column expected'')"

text \<open>
  The \<open>.str\<close> accessor needs a column of strings (object dtype): an empty column as
  read_csv gives it, or one holding at least one string. The \<open>.dt\<close> accessor needs a
  datetime column: timestamps and NaT only.
\<close>

fun is_str :: "cell \<Rightarrow> bool" where
  "is_str (S s) = True"
| "is_str _ = False"

fun is_datetime :: "cell \<Rightarrow> bool" where
  "is_datetime (T t) = True"
| "is_datetime NaT = True"
| "is_datetime _ = False"

definition str_accessor :: "cell list \<Rightarrow> error option" where
  "str_accessor cs =
     (if cs = [] \<or> list_ex is_str cs then None
      else Some (AttributeError ''Can only use .str accessor with string values''))"

definition dt_accessor :: "cell list \<Rightarrow> error option" where
  "dt_accessor cs =
     (if list_all is_datetime cs then None
      else Some (AttributeError ''Can only use .dt accessor with datetimelike values''))"

text \<open>\<open>int(x)\<close> on a float truncates toward zero.\<close>

definition py_int :: "real \<Rightarrow> int" where
  "py_int x = (if 0 \<le> x then \<lfloor>x\<rfloor> else \<lceil>x\<rceil>)"

section \<open>data_loader.py\<close>

record TrafficDataLoader =
  file_path :: string

text \<open>
  \<open>TrafficDataLoader.__init__\<close>: the file system is the parameter \<open>exists\<close>.
\<close>

definition TrafficDataLoader_init :: "(string \<Rightarrow> bool) \<Rightarrow> string \<Rightarrow> error + TrafficDataLoader" where
  "TrafficDataLoader_init exists p =
     (if \<not> exists p then Inl (FileNotFoundError p) else Inr \<lparr>file_path = p\<rparr>)"

definition required_columns :: "string list" where
  "required_columns = [''Date'', ''Clicks'', ''Impressions'', ''CTR'', ''Position'']"

text \<open>
  \<open>TrafficDataLoader.load\<close>: \<open>read_csv\<close> is pandas' reader, a parameter; whatever it
  raises is passed on. The message of the ValueError prints a Python set, whose order is
  not fixed, so the error carries the set itself.
\<close>

definition load :: "(string \<Rightarrow> error + frame) \<Rightarrow> TrafficDataLoader \<Rightarrow> error + frame" where
  "load read_csv self =
     bnd (read_csv (file_path self)) (\<lambda>df.
       let missing_columns = set required_columns - set (columns df) in
       if missing_columns \<noteq> {} then Inl (ValueError (MissingColumns missing_columns))
       else Inr df)"

section \<open>config.py\<close>

record Config =
  growth :: string
  changepoint_prior_scale :: real
  changepoint_range :: real
  yearly_seasonality :: bool
  weekly_seasonality :: bool
  daily_seasonality :: bool
  seasonality_mode :: string
  interval_width :: real
  uncertainty_samples :: int
  monthly_seasonality_period :: real
  monthly_seasonality_fourier :: int
  validation_days :: int
  date_column :: string
  clicks_column :: string
  impressions_column :: string
  ctr_column :: string
  position_column :: string
  export_html :: bool
  export_png :: bool
  export_svg :: bool
  export_pdf :: bool
  create_dashboard :: bool
  chart_width :: int
  chart_height :: int
  dashboard_width :: int
  dashboard_height :: int
  image_scale :: real
  plotly_theme :: string

text \<open>\<open>Config()\<close>: every field at its default.\<close>

definition Config_default :: Config where
  "Config_default =
     \<lparr>growth = ''linear'', changepoint_prior_scale = 5 / 100, changepoint_range = 9 / 10,
      yearly_seasonality = True, weekly_seasonality = True, daily_seasonality = False,
      seasonality_mode = ''multiplicative'', interval_width = 95 / 100,
      uncertainty_samples = 1000,
      monthly_seasonality_period = 305 / 10, monthly_seasonality_fourier = 5,
      validation_days = 60,
      date_column = ''Date'', clicks_column = ''Clicks'', impressions_column = ''Impressions'',
      ctr_column = ''CTR'', position_column = ''Position'',
      export_html = True, export_png = True, export_svg = False, export_pdf = False,
      create_dashboard = True,
      chart_width = 1000, chart_height = 600, dashboard_width = 1200, dashboard_height = 700,
      image_scale = 2, plotly_theme = ''plotly_white''\<rparr>"

definition prophet_params :: "Config \<Rightarrow> (string \<times> cell) list" where
  "prophet_params self =
     [(''growth'', S (growth self)),
      (''changepoint_prior_scale'', F (Fin (changepoint_prior_scale self))),
      (''changepoint_range'', F (Fin (changepoint_range self))),
      (''yearly_seasonality'', B (yearly_seasonality self)),
      (''weekly_seasonality'', B (weekly_seasonality self)),
      (''daily_seasonality'', B (daily_seasonality self)),
      (''seasonality_mode'', S (seasonality_mode self)),
      (''interval_width'', F (Fin (interval_width self))),
      (''uncertainty_samples'', I (uncertainty_samples self))]"

section \<open>model.py\<close>

text \<open>
  The forecasting library, scikit-learn's two metrics and the one numpy expression that
  depends on index labels are external: they are the fields of a parameter. A library
  call either returns or raises; what it raises is wrapped as \<open>LibraryError\<close>.
  \<open>'m\<close> is the type of the library's model objects.

  \<open>mean_abs_diff\<close> stands for \<open>np.mean(np.abs(a - b))\<close> on two Series, which pandas
  aligns on their index labels before subtracting.
\<close>

record 'm prophet_lib =
  Prophet :: "(string \<times> cell) list \<Rightarrow> string + 'm"
  add_seasonality :: "'m \<Rightarrow> string \<Rightarrow> real \<Rightarrow> int \<Rightarrow> string + 'm"
  prophet_fit :: "'m \<Rightarrow> frame \<Rightarrow> string + 'm"
  prophet_predict :: "'m \<Rightarrow> frame \<Rightarrow> string + frame"
  make_future_dataframe :: "'m \<Rightarrow> int \<Rightarrow> string + frame"
  cross_validation :: "'m \<Rightarrow> string \<Rightarrow> string \<Rightarrow> string \<Rightarrow> string + frame"
  performance_metrics :: "frame \<Rightarrow> string + frame"
  mean_abs_diff :: "cell list \<Rightarrow> cell list \<Rightarrow> fnum"
  mean_absolute_percentage_error :: "cell list \<Rightarrow> cell list \<Rightarrow> fnum"
  mean_squared_error :: "cell list \<Rightarrow> cell list \<Rightarrow> fnum"

definition lib :: "string + 'a \<Rightarrow> error + 'a" where
  "lib r = (case r of Inl s \<Rightarrow> Inl (LibraryError s) | Inr x \<Rightarrow> Inr x)"

record 'm TrafficProphetModel =
  config :: Config
  model :: "'m option"
  validation_metrics :: "string \<rightharpoonup> fnum"

definition TrafficProphetModel_init :: "Config \<Rightarrow> 'm TrafficProphetModel" where
  "TrafficProphetModel_init cfg = \<lparr>config = cfg, model = None, validation_metrics = Map.empty\<rparr>"

definition create_model :: "'m prophet_lib \<Rightarrow> 'm TrafficProphetModel \<Rightarrow> error + 'm" where
  "create_model L self =
     bnd (lib (Prophet L (prophet_params (config self)))) (\<lambda>m.
       lib (add_seasonality L m ''monthly''
              (monthly_seasonality_period (config self))
              (monthly_seasonality_fourier (config self))))"

text \<open>
  \<open>int(len(df) * 0.8)\<close> is a float product; for every length below \<open>2^48\<close> the float
  result truncates to the same integer as the exact product.
\<close>

definition split_data :: "'m TrafficProphetModel \<Rightarrow> frame \<Rightarrow> frame \<times> frame" where
  "split_data self df =
     (let train_size = int (length (rows df)) - validation_days (config self);
          train_size = max train_size (py_int (real (length (rows df)) * (8 / 10)));
          train_df = iloc_to df train_size;
          test_df = iloc_from df train_size
      in (train_df, test_df))"

definition validate ::
  "'m prophet_lib \<Rightarrow> 'm TrafficProphetModel \<Rightarrow> frame \<Rightarrow> frame \<Rightarrow> error + 'm TrafficProphetModel" where
  "validate L self train_df test_df =
     (case model self of
        None \<Rightarrow> Inl (AttributeError ''NoneType object has no attribute predict'')
      | Some m \<Rightarrow>
          bnd (getitems test_df [''ds'']) (\<lambda>test_ds.
          bnd (lib (prophet_predict L m test_ds)) (\<lambda>test_forecast.
          bnd (getitem test_forecast ''yhat'') (\<lambda>yhat.
          bnd (getitem test_df ''y'') (\<lambda>y.
            let mae = mean_abs_diff L yhat y;
                mape = fmul (mean_absolute_percentage_error L y yhat) (Fin 100);
                rmse = fsqrt (mean_squared_error L y yhat)
            in Inr (self\<lparr>validation_metrics :=
                        [''mae'' \<mapsto> mae, ''mape'' \<mapsto> mape, ''rmse'' \<mapsto> rmse]\<rparr>))))))"

text \<open>
  \<open>fit\<close>. An exception leaves the computation at once; the half-updated object is not
  returned. The printed lines are not modelled.
\<close>

definition fit ::
  "'m prophet_lib \<Rightarrow> 'm TrafficProphetModel \<Rightarrow> frame \<Rightarrow> error + 'm TrafficProphetModel" where
  "fit L self df =
     (case split_data self df of (train_df, test_df) \<Rightarrow>
        bnd (create_model L self) (\<lambda>m0.
        bnd (getitems train_df [''ds'', ''y'']) (\<lambda>train_xy.
        bnd (lib (prophet_fit L m0 train_xy)) (\<lambda>m1.
        bnd (if 0 < length (rows test_df)
             then validate L (self\<lparr>model := Some m1\<rparr>) train_df test_df
             else Inr (self\<lparr>model := Some m1\<rparr>)) (\<lambda>self1.
        bnd (create_model L self1) (\<lambda>m2.
        bnd (getitems df [''ds'', ''y'']) (\<lambda>df_xy.
        bnd (lib (prophet_fit L m2 df_xy)) (\<lambda>m3.
          Inr (self1\<lparr>model := Some m3\<rparr>)))))))))"

definition predict :: "'m prophet_lib \<Rightarrow> 'm TrafficProphetModel \<Rightarrow> int \<Rightarrow> error + frame" where
  "predict L self periods =
     (case model self of
        None \<Rightarrow> Inl (ValueError (NotFitted ''Model must be fitted before prediction''))
      | Some m \<Rightarrow>
          bnd (lib (make_future_dataframe L m periods)) (\<lambda>future.
          bnd (lib (prophet_predict L m future)) (\<lambda>forecast.
            Inr forecast)))"

text \<open>Python's \<open>str\<close> of an integer, for the f-strings below.\<close>

fun str_nat :: "nat \<Rightarrow> string" where
  "str_nat n =
     (if n < 10 then [''0123456789'' ! n]
      else str_nat (n div 10) @ [''0123456789'' ! (n mod 10)])"

definition str_int :: "int \<Rightarrow> string" where
  "str_int k = (if k < 0 then CHR ''-'' # str_nat (nat (- k)) else str_nat (nat k))"

definition cross_validate ::
  "'m prophet_lib \<Rightarrow> 'm TrafficProphetModel \<Rightarrow> int \<Rightarrow> int \<Rightarrow> int \<Rightarrow> error + frame" where
  "cross_validate L self initial_days period_days horizon_days =
     (case model self of
        None \<Rightarrow> Inl (ValueError (NotFitted ''Model must be fitted before cross-validation''))
      | Some m \<Rightarrow>
          bnd (lib (cross_validation L m
                 (str_int initial_days @ '' days'')
                 (str_int period_days @ '' days'')
                 (str_int horizon_days @ '' days''))) (\<lambda>cv_results.
          bnd (lib (performance_metrics L cv_results)) (\<lambda>metrics_df.
          bnd (getitem metrics_df ''mape'') (\<lambda>mape.
          bnd (getitem metrics_df ''coverage'') (\<lambda>coverage.
            Inr cv_results)))))"

text \<open>
  \<open>Series.max()\<close> of a datetime column skips NaT: the largest timestamp, and NaT (here
  \<open>None\<close>) when the column holds none. Every comparison with NaT is False.
\<close>

definition ts_max :: "int option list \<Rightarrow> int option" where
  "ts_max xs =
     (case List.map_filter (\<lambda>x. x) xs of [] \<Rightarrow> None | t # ts \<Rightarrow> Some (fold max ts t))"

fun ts_gt :: "int option \<Rightarrow> int option \<Rightarrow> bool" where
  "ts_gt (Some t) (Some m) = (m < t)"
| "ts_gt _ _ = False"

text \<open>
  \<open>Series.round()\<close> rounds to the nearest integer, a tie to the even neighbour, and
  keeps the float type. \<open>astype(int)\<close> raises on nan and infinities and truncates a finite
  value to a 64-bit integer; a value outside the 64-bit range is cast without an error to
  the least 64-bit integer, as numpy does on x86-64.
\<close>

definition cast_int64 :: "real \<Rightarrow> int" where
  "cast_int64 a = (if - (2 ^ 63) \<le> a \<and> a < 2 ^ 63 then py_int a else - (2 ^ 63))"

definition rint :: "real \<Rightarrow> int" where
  "rint x =
     (let f = \<lfloor>x\<rfloor>; d = x - of_int f
      in if d < 1 / 2 then f else if 1 / 2 < d then f + 1 else if even f then f else f + 1)"

fun fround :: "fnum \<Rightarrow> fnum" where
  "fround (Fin a) = Fin (of_int (rint a))"
| "fround x = x"

fun astype_int :: "fnum \<Rightarrow> error + int" where
  "astype_int (Fin a) = Inr (cast_int64 a)"
| "astype_int _ = Inl IntCastingNaNError"

definition round_astype_int :: "frame \<Rightarrow> string \<Rightarrow> error + cell list" where
  "round_astype_int df c =
     bnd (getitem df c) (\<lambda>vs.
     bnd (mapM as_float vs) (\<lambda>xs.
     bnd (mapM astype_int (map fround xs)) (\<lambda>ks.
       Inr (map I ks))))"

definition get_future_predictions :: "frame \<Rightarrow> frame \<Rightarrow> error + frame" where
  "get_future_predictions forecast historical_df =
     bnd (getitem historical_df ''ds'') (\<lambda>hist_ds.
     bnd (mapM as_ts hist_ds) (\<lambda>hist_ts.
     let max_historical_date = ts_max hist_ts in
     bnd (getitem forecast ''ds'') (\<lambda>forecast_ds.
     bnd (mapM as_ts forecast_ds) (\<lambda>forecast_ts.
     let future_forecast =
           select_mask forecast (map (\<lambda>t. ts_gt t max_historical_date) forecast_ts) in
     bnd (round_astype_int future_forecast ''yhat'') (\<lambda>predicted.
     let future_forecast = setitem future_forecast ''predicted'' predicted in
     bnd (round_astype_int future_forecast ''yhat_lower'') (\<lambda>lower_bound.
     let future_forecast = setitem future_forecast ''lower_bound'' lower_bound in
     bnd (round_astype_int future_forecast ''yhat_upper'') (\<lambda>upper_bound.
     let future_forecast = setitem future_forecast ''upper_bound'' upper_bound in
     getitems future_forecast [''ds'', ''predicted'', ''lower_bound'', ''upper_bound''])))))))"

section \<open>The calendar of the datetime accessor\<close>

text \<open>
  What pandas' \<open>.dt\<close> accessor returns for a timestamp, in the proleptic Gregorian
  calendar. 1970-01-01 was a Thursday; days of the week count from Monday = 0.
\<close>

definition ns_per_day :: int where
  "ns_per_day = 86400000000000"

definition days_of :: "int \<Rightarrow> int" where
  "days_of t = t div ns_per_day"

definition civil :: "int \<Rightarrow> int \<times> int \<times> int" where
  "civil z0 =
     (let z = z0 + 719468;
          era = z div 146097;
          doe = z - era * 146097;
          yoe = (doe - doe div 1460 + doe div 36524 - doe div 146096) div 365;
          doy = doe - (365 * yoe + yoe div 4 - yoe div 100);
          mp = (5 * doy + 2) div 153;
          d = doy - (153 * mp + 2) div 5 + 1;
          m = (if mp < 10 then mp + 3 else mp - 9);
          y = yoe + era * 400 + (if m \<le> 2 then 1 else 0)
      in (y, m, d))"

definition dt_year :: "int \<Rightarrow> int" where
  "dt_year t = fst (civil (days_of t))"

definition dt_month :: "int \<Rightarrow> int" where
  "dt_month t = fst (snd (civil (days_of t)))"

definition dt_day :: "int \<Rightarrow> int" where
  "dt_day t = snd (snd (civil (days_of t)))"

definition dt_dayofweek :: "int \<Rightarrow> int" where
  "dt_dayofweek t = (days_of t + 3) mod 7"

definition dt_quarter :: "int \<Rightarrow> int" where
  "dt_quarter t = (dt_month t - 1) div 3 + 1"

definition is_leap :: "int \<Rightarrow> bool" where
  "is_leap y = (y mod 4 = 0 \<and> (y mod 100 \<noteq> 0 \<or> y mod 400 = 0))"

definition days_in_month :: "int \<Rightarrow> int \<Rightarrow> int" where
  "days_in_month y m =
     (if m = 2 then (if is_leap y then 29 else 28)
      else if m = 4 \<or> m = 6 \<or> m = 9 \<or> m = 11 then 30 else 31)"

definition dt_is_month_end :: "int \<Rightarrow> bool" where
  "dt_is_month_end t = (dt_day t = days_in_month (dt_year t) (dt_month t))"

definition dt_is_month_start :: "int \<Rightarrow> bool" where
  "dt_is_month_start t = (dt_day t = 1)"

definition dt_dayofyear :: "int \<Rightarrow> int" where
  "dt_dayofyear t =
     (let m = dt_month t in
      [0, 31, 59, 90, 120, 151, 181, 212, 243, 273, 304, 334] ! nat (m - 1)
      + (if 2 < m \<and> is_leap (dt_year t) then 1 else 0) + dt_day t)"

definition iso_weeks_in_year :: "int \<Rightarrow> int" where
  "iso_weeks_in_year y =
     (let p = (\<lambda>y. (y + y div 4 - y div 100 + y div 400) mod 7)
      in if p y = 4 \<or> p (y - 1) = 3 then 53 else 52)"

definition dt_isoweek :: "int \<Rightarrow> int" where
  "dt_isoweek t =
     (let w = (dt_dayofyear t - (dt_dayofweek t + 1) + 10) div 7 in
      if w < 1 then iso_weeks_in_year (dt_year t - 1)
      else if iso_weeks_in_year (dt_year t) < w then 1
      else w)"

definition day_order :: "string list" where
  "day_order = [''Monday'', ''Tuesday'', ''Wednesday'', ''Thursday'',
                ''Friday'', ''Saturday'', ''Sunday'']"

definition dt_day_name :: "int \<Rightarrow> string" where
  "dt_day_name t = day_order ! nat (dt_dayofweek t)"

section \<open>Column statistics\<close>

fun is_nan :: "fnum \<Rightarrow> bool" where
  "is_nan NaN = True"
| "is_nan _ = False"

definition fsum :: "fnum list \<Rightarrow> fnum" where
  "fsum xs = foldl fadd (Fin 0) xs"

text \<open>
  pandas: \<open>Series.mean()\<close> and \<open>Series.std()\<close> skip nan; the standard deviation divides
  by the count less one and is nan when that is not positive.
\<close>

definition series_mean :: "fnum list \<Rightarrow> fnum" where
  "series_mean xs =
     (let vs = filter (\<lambda>x. \<not> is_nan x) xs
      in if vs = [] then NaN else fdiv (fsum vs) (Fin (real (length vs))))"

definition series_std :: "fnum list \<Rightarrow> fnum" where
  "series_std xs =
     (let vs = filter (\<lambda>x. \<not> is_nan x) xs;
          count = length vs
      in if count \<le> 1 then NaN
         else let avg = fdiv (fsum vs) (Fin (real count));
                  sqr = map (\<lambda>x. fmul (fsub avg x) (fsub avg x)) vs
              in fsqrt (fdiv (fsum sqr) (Fin (real (count - 1)))))"

text \<open>
  numpy: \<open>mean\<close> and \<open>std\<close> of an array use every element and divide by the count;
  \<open>scipy.stats.zscore\<close> is built from them.
\<close>

definition np_mean :: "fnum list \<Rightarrow> fnum" where
  "np_mean xs = fdiv (fsum xs) (Fin (real (length xs)))"

definition np_std :: "fnum list \<Rightarrow> fnum" where
  "np_std xs =
     (let m = np_mean xs
      in fsqrt (np_mean (map (\<lambda>x. fmul (fabs (fsub x m)) (fabs (fsub x m))) xs)))"

definition zscore :: "fnum list \<Rightarrow> fnum list" where
  "zscore a =
     (let mn = np_mean a; std = np_std a
      in map (\<lambda>x. fdiv (fsub x mn) std) a)"

section \<open>preprocessor.py\<close>

text \<open>
  The preprocessor copies tables and then assigns columns in place, so its tables live in
  an object store: a list of tables, an object being its position in the list. Creating
  an object appends it.
\<close>

type_synonym heap = "frame list"

definition df_copy :: "heap \<Rightarrow> nat \<Rightarrow> heap \<times> nat" where
  "df_copy h df = (h @ [h ! df], length h)"

text \<open>
  One assignment \<open>df[c] = e\<close> where \<open>e\<close> is an elementwise expression over columns of the
  same table: the target column, the columns read (a missing one is a KeyError), what an
  accessor in the expression requires of the table (if anything), and the value of the
  expression on a row. The object is updated in place.
\<close>

type_synonym step =
  "string \<times> string list \<times> (row list \<Rightarrow> error option) \<times> (row \<Rightarrow> error + cell)"

definition assign :: "heap \<Rightarrow> nat \<Rightarrow> step \<Rightarrow> error + heap" where
  "assign h df st =
     (case st of (c, srcs, accessor, e) \<Rightarrow>
        (case filter (\<lambda>s. s \<notin> set (columns (h ! df))) srcs of
           s # _ \<Rightarrow> Inl (KeyError s)
         | [] \<Rightarrow>
            (case accessor (rows (h ! df)) of
               Some err \<Rightarrow> Inl err
             | None \<Rightarrow>
                 bnd (mapM e (rows (h ! df))) (\<lambda>vs. Inr (h[df := setitem (h ! df) c vs])))))"

definition no_accessor :: "row list \<Rightarrow> error option" where
  "no_accessor rs = None"

fun run :: "heap \<Rightarrow> nat \<Rightarrow> step list \<Rightarrow> error + heap" where
  "run h df [] = Inr h"
| "run h df (st # sts) = bnd (assign h df st) (\<lambda>h'. run h' df sts)"

text \<open>The effect of a list of assignments on a single row.\<close>

fun row_run :: "step list \<Rightarrow> row \<Rightarrow> error + row" where
  "row_run [] r = Inr r"
| "row_run ((c, srcs, accessor, e) # sts) r = bnd (e r) (\<lambda>v. row_run sts (r(c \<mapsto> v)))"

text \<open>
  pandas' two parsers are parameters: \<open>to_datetime\<close> on a string (it raises on a string it
  cannot read) and \<open>to_numeric\<close> on a string (with errors='coerce', nan for a string it
  cannot read).
\<close>

record pandas =
  to_datetime :: "string \<Rightarrow> int option"
  to_numeric :: "string \<Rightarrow> real option"

text \<open>
  \<open>pd.to_datetime\<close> on one cell: a string is parsed, a missing value becomes NaT, a
  number counts nanoseconds since the epoch (a float is truncated; the least 64-bit
  integer is NaT, a number outside 64 bits raises), a boolean raises.
\<close>

definition epoch_ns :: "int \<Rightarrow> error + cell" where
  "epoch_ns n =
     (if n = - (2 ^ 63) then Inr NaT
      else if - (2 ^ 63) < n \<and> n < 2 ^ 63 then Inr (T n)
      else Inl OutOfBoundsDatetime)"

fun parse_datetime :: "pandas \<Rightarrow> cell \<Rightarrow> error + cell" where
  "parse_datetime P (S s) =
     (case to_datetime P s of Some t \<Rightarrow> Inr (T t) | None \<Rightarrow> Inl (ParseError s))"
| "parse_datetime P (T t) = Inr (T t)"
| "parse_datetime P NaT = Inr NaT"
| "parse_datetime P (I n) = epoch_ns n"
| "parse_datetime P (F (Fin x)) = epoch_ns (py_int x)"
| "parse_datetime P (F NaN) = Inr NaT"
| "parse_datetime P (F PInf) = Inl OutOfBoundsDatetime"
| "parse_datetime P (F NInf) = Inl OutOfBoundsDatetime"
| "parse_datetime P (B b) = Inl (TypeError ''bool is not convertible to datetime'')"

definition coerce_numeric :: "pandas \<Rightarrow> string \<Rightarrow> fnum" where
  "coerce_numeric P s = (case to_numeric P s of Some x \<Rightarrow> Fin x | None \<Rightarrow> NaN)"

definition rstrip :: "string \<Rightarrow> char \<Rightarrow> string" where
  "rstrip s c = rev (dropWhile (\<lambda>x. x = c) (rev s))"

text \<open>
  \<open>pd.to_numeric(s.str.rstrip('%'), errors='coerce') / 100\<close> on one cell of a column of
  strings: a cell that is not a string passes through the accessor as nan.
\<close>

fun percent_cell :: "pandas \<Rightarrow> cell \<Rightarrow> cell" where
  "percent_cell P (S s) = F (fdiv (coerce_numeric P (rstrip s CHR ''%'')) (Fin 100))"
| "percent_cell P c = F NaN"

text \<open>
  \<open>sort_values\<close> by a datetime column returns a new table: the rows with a timestamp in
  nondecreasing order, then the rows with NaT. Rows with equal keys keep their order
  here (numpy does not promise an order among them, and nothing below depends on it).
  \<open>reset_index(drop=True)\<close> returns a new table with the positional index.
\<close>

definition sort_rows :: "int option list \<Rightarrow> row list \<Rightarrow> row list" where
  "sort_rows ks rs =
     map snd (sort_key fst (List.map_filter (\<lambda>(k, r). map_option (\<lambda>t. (t, r)) k) (zip ks rs)))
     @ map snd (filter (\<lambda>(k, r). k = None) (zip ks rs))"

definition sort_values :: "heap \<Rightarrow> nat \<Rightarrow> string \<Rightarrow> error + heap \<times> nat" where
  "sort_values h df c =
     bnd (getitem (h ! df) c) (\<lambda>ks.
     bnd (mapM as_ts ks) (\<lambda>ts.
       Inr (h @ [(h ! df)\<lparr>rows := sort_rows ts (rows (h ! df))\<rparr>], length h)))"

definition reset_index :: "heap \<Rightarrow> nat \<Rightarrow> heap \<times> nat" where
  "reset_index h df = (h @ [h ! df], length h)"

text \<open>
  A field of the \<open>.dt\<close> accessor on one cell of ds: nan for NaT; a boolean field is False
  for NaT and \<open>astype(int)\<close> makes it 0 or 1.
\<close>

definition dt_field :: "row list \<Rightarrow> error option" where
  "dt_field rs = dt_accessor (map (\<lambda>r. cell_at r ''ds'') rs)"

definition dt_int :: "(int \<Rightarrow> int) \<Rightarrow> row \<Rightarrow> error + cell" where
  "dt_int f r =
     bnd (as_ts (cell_at r ''ds'')) (\<lambda>t.
       Inr (case t of Some t \<Rightarrow> I (f t) | None \<Rightarrow> F NaN))"

definition dt_bool_int :: "(int \<Rightarrow> bool) \<Rightarrow> row \<Rightarrow> error + cell" where
  "dt_bool_int f r =
     bnd (as_ts (cell_at r ''ds'')) (\<lambda>t.
       Inr (case t of Some t \<Rightarrow> I (if f t then 1 else 0) | None \<Rightarrow> I 0))"

definition feature_steps :: "step list" where
  "feature_steps =
     [(''day_of_week'', [''ds''], dt_field, dt_int dt_dayofweek),
      (''day_of_month'', [''ds''], dt_field, dt_int dt_day),
      (''week_of_year'', [''ds''], dt_field, dt_int dt_isoweek),
      (''month'', [''ds''], dt_field, dt_int dt_month),
      (''quarter'', [''ds''], dt_field, dt_int dt_quarter),
      (''year'', [''ds''], dt_field, dt_int dt_year),
      (''is_weekend'', [''day_of_week''], no_accessor,
         \<lambda>r. bnd (as_float (cell_at r ''day_of_week'')) (\<lambda>d.
               Inr (I (if fge d (Fin 5) then 1 else 0)))),
      (''is_month_end'', [''ds''], dt_field, dt_bool_int dt_is_month_end),
      (''is_month_start'', [''ds''], dt_field, dt_bool_int dt_is_month_start),
      (''clicks_per_impression'', [''y'', ''Impressions''], no_accessor,
         \<lambda>r. bnd (as_float (cell_at r ''y'')) (\<lambda>y.
             bnd (as_float (cell_at r ''Impressions'')) (\<lambda>impressions.
               Inr (F (fdiv y impressions))))),
      (''position_impact'', [''position''], no_accessor,
         \<lambda>r. bnd (as_float (cell_at r ''position'')) (\<lambda>position.
               Inr (F (fdiv (Fin 1) position))))]"

definition add_features :: "heap \<Rightarrow> nat \<Rightarrow> error + heap \<times> nat" where
  "add_features h df = bnd (run h df feature_steps) (\<lambda>h. Inr (h, df))"

definition process_steps :: "pandas \<Rightarrow> step list" where
  "process_steps P =
     [(''ds'', [''Date''], no_accessor, \<lambda>r. parse_datetime P (cell_at r ''Date'')),
      (''y'', [''Clicks''], no_accessor, \<lambda>r. Inr (cell_at r ''Clicks'')),
      (''ctr'', [''CTR''], \<lambda>rs. str_accessor (map (\<lambda>r. cell_at r ''CTR'') rs),
         \<lambda>r. Inr (percent_cell P (cell_at r ''CTR''))),
      (''position'', [''Position''], no_accessor, \<lambda>r. Inr (cell_at r ''Position''))]"

definition process :: "pandas \<Rightarrow> heap \<Rightarrow> nat \<Rightarrow> error + heap \<times> nat" where
  "process P h df =
     (case df_copy h df of (h, df_processed) \<Rightarrow>
        bnd (run h df_processed (process_steps P)) (\<lambda>h.
        bnd (sort_values h df_processed ''ds'') (\<lambda>(h, sorted).
          case reset_index h sorted of (h, df_processed) \<Rightarrow>
            add_features h df_processed)))"

definition handle_outliers :: "heap \<Rightarrow> nat \<Rightarrow> fnum \<Rightarrow> error + heap \<times> nat" where
  "handle_outliers h df z_threshold =
     (case df_copy h df of (h, df) \<Rightarrow>
        bnd (getitem (h ! df) ''y'') (\<lambda>y.
        bnd (mapM as_float y) (\<lambda>ys.
          let z_scores = map (\<lambda>v. fabs (fdiv (fsub v (series_mean ys)) (series_std ys))) ys;
              h = h[df := setitem (h ! df) ''is_outlier'' (map (\<lambda>z. B (fgt z z_threshold)) z_scores)]
          in Inr (h, df))))"

section \<open>analyzer.py\<close>

text \<open>
  \<open>df.loc[idx, c]\<close> with the positional index, and \<open>a[idx]\<close> on a numpy array.
\<close>

definition loc :: "frame \<Rightarrow> nat \<Rightarrow> string \<Rightarrow> error + cell" where
  "loc df idx c =
     (if c \<notin> set (columns df) then Inl (KeyError c)
      else if idx < length (rows df) then Inr (cell_at (rows df ! idx) c)
      else Inl (KeyError ''index''))"

definition array_get :: "'a list \<Rightarrow> nat \<Rightarrow> error + 'a" where
  "array_get a idx = (if idx < length a then Inr (a ! idx) else Inl IndexError)"

text \<open>\<open>_detect_anomalies\<close>: the result is a list of dictionaries.\<close>

definition detect_anomalies :: "frame \<Rightarrow> fnum \<Rightarrow> error + row list" where
  "detect_anomalies df z_threshold =
     bnd (getitem df ''y'') (\<lambda>y.
     bnd (mapM as_float y) (\<lambda>ys.
       let z_scores = map fabs (zscore ys);
           anomaly_mask = map (\<lambda>z. fgt z z_threshold) z_scores;
           index = filter (\<lambda>i. anomaly_mask ! i) [0 ..< length (rows df)]
       in mapM (\<lambda>idx.
                  bnd (loc df idx ''ds'') (\<lambda>date.
                  bnd (loc df idx ''y'') (\<lambda>clicks.
                  bnd (array_get z_scores idx) (\<lambda>z.
                    Inr [''date'' \<mapsto> date, ''clicks'' \<mapsto> clicks, ''z_score'' \<mapsto> F z]))))
               index))"

text \<open>
  \<open>df.groupby(key)[val].mean()\<close>: one entry per key that occurs, a missing key apart,
  with the mean of the group. pandas orders the entries by key; here they stand in the
  order of first occurrence, which no use below can tell apart.
\<close>

fun is_missing :: "cell \<Rightarrow> bool" where
  "is_missing (F NaN) = True"
| "is_missing NaT = True"
| "is_missing _ = False"

definition groupby_mean :: "frame \<Rightarrow> string \<Rightarrow> string \<Rightarrow> error + (cell \<times> fnum) list" where
  "groupby_mean df key val =
     bnd (getitem df key) (\<lambda>ks.
     bnd (getitem df val) (\<lambda>vs.
     bnd (mapM as_float vs) (\<lambda>ys.
       Inr (map (\<lambda>k. (k, series_mean (map snd (filter (\<lambda>p. fst p = k) (zip ks ys)))))
                (remdups (filter (\<lambda>k. \<not> is_missing k) ks))))))"

definition reindex :: "(cell \<times> fnum) list \<Rightarrow> cell list \<Rightarrow> fnum list" where
  "reindex ser ks = map (\<lambda>k. case map_of ser k of Some v \<Rightarrow> v | None \<Rightarrow> NaN) ks"

definition series_get :: "(cell \<times> fnum) list \<Rightarrow> cell \<Rightarrow> fnum \<Rightarrow> fnum" where
  "series_get ser k d = (case map_of ser k of Some v \<Rightarrow> v | None \<Rightarrow> d)"

definition relative_strength :: "fnum \<Rightarrow> fnum \<Rightarrow> fnum" where
  "relative_strength avg mean = fmul (fsub (fdiv avg mean) (Fin 1)) (Fin 100)"

text \<open>
  \<open>_analyze_weekly_pattern\<close> adds the column day_name to the table it was given, so the
  updated table is returned beside the result.
\<close>

definition analyze_weekly_pattern :: "frame \<Rightarrow> error + frame \<times> frame" where
  "analyze_weekly_pattern df =
     bnd (getitem df ''ds'') (\<lambda>ds.
     bnd (mapM as_ts ds) (\<lambda>ts.
     let df = setitem df ''day_name''
                (map (\<lambda>t. case t of Some t \<Rightarrow> S (dt_day_name t) | None \<Rightarrow> F NaN) ts) in
     bnd (groupby_mean df ''day_name'' ''y'') (\<lambda>weekly_avg.
     let weekly_avg = reindex weekly_avg (map S day_order);
         mean = series_mean weekly_avg;
         weekly_pattern =
           \<lparr>columns = [''day'', ''average_clicks'', ''relative_strength''],
            rows = map (\<lambda>(d, avg). [''day'' \<mapsto> S d, ''average_clicks'' \<mapsto> F avg,
                                     ''relative_strength'' \<mapsto> F (relative_strength avg mean)])
                       (zip day_order weekly_avg)\<rparr>
     in Inr (df, weekly_pattern))))"

definition month_names :: "string list" where
  "month_names = [''Jan'', ''Feb'', ''Mar'', ''Apr'', ''May'', ''Jun'',
                  ''Jul'', ''Aug'', ''Sep'', ''Oct'', ''Nov'', ''Dec'']"

definition analyze_monthly_pattern :: "frame \<Rightarrow> error + frame" where
  "analyze_monthly_pattern df =
     bnd (groupby_mean df ''month'' ''y'') (\<lambda>monthly_avg.
     let mean = series_mean (map snd monthly_avg);
         monthly_pattern =
           \<lparr>columns = [''month'', ''average_clicks'', ''relative_strength''],
            rows = map (\<lambda>i. [''month'' \<mapsto> S (month_names ! i),
                              ''average_clicks'' \<mapsto>
                                 F (series_get monthly_avg (I (int i + 1)) (Fin 0)),
                              ''relative_strength'' \<mapsto>
                                 F (relative_strength
                                      (series_get monthly_avg (I (int i + 1)) (Fin 0)) mean)])
                       [0 ..< 12]\<rparr>
     in Inr monthly_pattern)"

section \<open>Statistics of a finite series\<close>

text \<open>
  The textbook mean and the two standard deviations of a list of reals (dividing by the
  count, and by the count less one), in which the properties below are stated.
\<close>

definition mean_of :: "real list \<Rightarrow> real" where
  "mean_of xs = sum_list xs / real (length xs)"

definition sum_sq_dev :: "real list \<Rightarrow> real" where
  "sum_sq_dev xs = sum_list (map (\<lambda>x. (x - mean_of xs)\<^sup>2) xs)"

definition population_std :: "real list \<Rightarrow> real" where
  "population_std xs = sqrt (sum_sq_dev xs / real (length xs))"

definition sample_std :: "real list \<Rightarrow> real" where
  "sample_std xs = sqrt (sum_sq_dev xs / real (length xs - 1))"

section \<open>Concrete instances\<close>

text \<open>
  A stand-in for the forecasting library, used where a property is instantiated at a
  concrete input: a model object is the table it was last fitted on, fitting refuses a
  table of fewer than two rows, and every prediction and metric is zero.
\<close>

definition recording_lib :: "frame option prophet_lib" where
  "recording_lib =
     \<lparr>Prophet = (\<lambda>ps. Inr None),
      add_seasonality = (\<lambda>m name period order. Inr m),
      prophet_fit = (\<lambda>m df. if length (rows df) < 2
                             then Inl ''Dataframe has less than 2 non-NaN rows.''
                             else Inr (Some df)),
      prophet_predict = (\<lambda>m df. Inr (setitem df ''yhat'' (map (\<lambda>r. F (Fin 0)) (rows df)))),
      make_future_dataframe = (\<lambda>m periods. Inr \<lparr>columns = [''ds''], rows = []\<rparr>),
      cross_validation = (\<lambda>m initial period horizon. Inr \<lparr>columns = [''ds'', ''yhat'', ''y'', ''cutoff''], rows = []\<rparr>),
      performance_metrics = (\<lambda>df. Inr \<lparr>columns = [''horizon'', ''mape'', ''coverage''], rows = []\<rparr>),
      mean_abs_diff = (\<lambda>a b. Fin 0),
      mean_absolute_percentage_error = (\<lambda>a b. Fin 0),
      mean_squared_error = (\<lambda>a b. Fin 0)\<rparr>"

definition five_days :: frame where
  "five_days =
     \<lparr>columns = [''ds'', ''y''],
      rows = [[''ds'' \<mapsto> T 0, ''y'' \<mapsto> I 10],
              [''ds'' \<mapsto> T 1, ''y'' \<mapsto> I 20],
              [''ds'' \<mapsto> T 2, ''y'' \<mapsto> I 30],
              [''ds'' \<mapsto> T 3, ''y'' \<mapsto> I 40],
              [''ds'' \<mapsto> T 4, ''y'' \<mapsto> I 50]]\<rparr>"

text \<open>
  A forecast of five rows: two of the past (one of them with no prediction), two of the
  future, and one without a date.
\<close>

definition week_forecast :: frame where
  "week_forecast =
     \<lparr>columns = [''ds'', ''trend'', ''yhat_lower'', ''yhat_upper'', ''yhat''],
      rows = [[''ds'' \<mapsto> T 3, ''trend'' \<mapsto> F (Fin 40), ''yhat_lower'' \<mapsto> F NaN,
               ''yhat_upper'' \<mapsto> F PInf, ''yhat'' \<mapsto> F NaN],
              [''ds'' \<mapsto> T 4, ''trend'' \<mapsto> F (Fin 50), ''yhat_lower'' \<mapsto> F (Fin 45),
               ''yhat_upper'' \<mapsto> F (Fin 55), ''yhat'' \<mapsto> F (Fin 50)],
              [''ds'' \<mapsto> T 5, ''trend'' \<mapsto> F (Fin 60), ''yhat_lower'' \<mapsto> F (Fin (109 / 2)),
               ''yhat_upper'' \<mapsto> F (Fin (131 / 2)), ''yhat'' \<mapsto> F (Fin (601 / 10))],
              [''ds'' \<mapsto> NaT, ''trend'' \<mapsto> F (Fin 60), ''yhat_lower'' \<mapsto> F (Fin 1),
               ''yhat_upper'' \<mapsto> F (Fin 3), ''yhat'' \<mapsto> F (Fin 2)],
              [''ds'' \<mapsto> T 6, ''trend'' \<mapsto> F (Fin 70), ''yhat_lower'' \<mapsto> F (Fin (- 1 / 2)),
               ''yhat_upper'' \<mapsto> F (Fin (149 / 2)), ''yhat'' \<mapsto> F (Fin (347 / 5))]]\<rparr>"

text \<open>A forecast whose one row lies in the future and has no prediction.\<close>

definition nan_forecast :: frame where
  "nan_forecast =
     \<lparr>columns = [''ds'', ''yhat'', ''yhat_lower'', ''yhat_upper''],
      rows = [[''ds'' \<mapsto> T 5, ''yhat'' \<mapsto> F NaN, ''yhat_lower'' \<mapsto> F (Fin 1),
               ''yhat_upper'' \<mapsto> F (Fin 2)]]\<rparr>"

text \<open>Readers of a cell at a known type, for stating concrete instances.\<close>

definition cell_ts :: "cell \<Rightarrow> int option" where
  "cell_ts c = (case c of T t \<Rightarrow> Some t | _ \<Rightarrow> None)"

definition is_fin_cell :: "cell \<Rightarrow> bool" where
  "is_fin_cell c = (case c of F x \<Rightarrow> is_fin x | I n \<Rightarrow> True | _ \<Rightarrow> False)"

definition cell_real :: "cell \<Rightarrow> real" where
  "cell_real c = (case c of F (Fin x) \<Rightarrow> x | I n \<Rightarrow> of_int n | _ \<Rightarrow> 0)"

text \<open>
  A raw table of three days out of order: one without a date, one with no impressions.
\<close>

definition three_days_raw :: frame where
  "three_days_raw =
     \<lparr>columns = [''Date'', ''Clicks'', ''Impressions'', ''CTR'', ''Position''],
      rows = [[''Date'' \<mapsto> F NaN, ''Clicks'' \<mapsto> I 12, ''Impressions'' \<mapsto> I 600,
               ''CTR'' \<mapsto> S ''2.00%'', ''Position'' \<mapsto> F (Fin 4)],
              [''Date'' \<mapsto> S ''2023-01-07'', ''Clicks'' \<mapsto> I 5, ''Impressions'' \<mapsto> I 0,
               ''CTR'' \<mapsto> F NaN, ''Position'' \<mapsto> F (Fin 0)],
              [''Date'' \<mapsto> S ''2023-01-06'', ''Clicks'' \<mapsto> I 9, ''Impressions'' \<mapsto> I 90,
               ''CTR'' \<mapsto> S ''10%'', ''Position'' \<mapsto> F (Fin (5 / 2))]]\<rparr>"

definition three_days_parsers :: pandas where
  "three_days_parsers =
     \<lparr>to_datetime = (\<lambda>s. if s = ''2023-01-06'' then Some (19363 * ns_per_day)
                          else if s = ''2023-01-07'' then Some (19364 * ns_per_day)
                          else if s = ''2023-01-08'' then Some (19365 * ns_per_day)
                          else None),
      to_numeric = (\<lambda>s. if s = ''2.00'' then Some 2 else if s = ''10'' then Some 10 else None)\<rparr>"

text \<open>A one-row table as \<open>_add_features\<close> receives it.\<close>

definition one_row_table :: "int \<Rightarrow> real \<Rightarrow> frame" where
  "one_row_table impressions position =
     \<lparr>columns = [''ds'', ''y'', ''Impressions'', ''position''],
      rows = [[''ds'' \<mapsto> T 0, ''y'' \<mapsto> I 5, ''Impressions'' \<mapsto> I impressions,
               ''position'' \<mapsto> F (Fin position)]]\<rparr>"

text \<open>Eleven days of clicks: one click, nine days without, and a day with four.\<close>

definition spike_days :: frame where
  "spike_days =
     \<lparr>columns = [''ds'', ''y''],
      rows = map (\<lambda>(t, v). [''ds'' \<mapsto> T t, ''y'' \<mapsto> I v])
                 [(0, 1), (1, 0), (2, 0), (3, 0), (4, 0), (5, 0),
                  (6, 0), (7, 0), (8, 0), (9, 0), (10, 4)]\<rparr>"

text \<open>Twelve days of clicks: eleven days without and a day with twelve.\<close>

definition outlier_days :: frame where
  "outlier_days =
     \<lparr>columns = [''ds'', ''y''],
      rows = map (\<lambda>(t, v). [''ds'' \<mapsto> T t, ''y'' \<mapsto> I v])
                 [(0, 0), (1, 0), (2, 0), (3, 0), (4, 0), (5, 0),
                  (6, 0), (7, 0), (8, 0), (9, 0), (10, 0), (11, 12)]\<rparr>"

text \<open>
  Four days of clicks as the analyzer receives them: two Mondays and a Tuesday of
  January 2023 and the first of February, a Wednesday.
\<close>

definition four_clicks :: frame where
  "four_clicks =
     \<lparr>columns = [''ds'', ''y'', ''month''],
      rows = [[''ds'' \<mapsto> T (19359 * ns_per_day), ''y'' \<mapsto> I 10, ''month'' \<mapsto> I 1],
              [''ds'' \<mapsto> T (19360 * ns_per_day), ''y'' \<mapsto> I 60, ''month'' \<mapsto> I 1],
              [''ds'' \<mapsto> T (19366 * ns_per_day), ''y'' \<mapsto> I 20, ''month'' \<mapsto> I 1],
              [''ds'' \<mapsto> T (19389 * ns_per_day), ''y'' \<mapsto> I 150, ''month'' \<mapsto> I 2]]\<rparr>"

section \<open>Lemmas on sequencing\<close>

lemma bnd_Inr_iff: "bnd m f = Inr y \<longleftrightarrow> (\<exists>x. m = Inr x \<and> f x = Inr y)"
  by (cases m) (simp_all add: bnd_def)

lemma bnd_Inr: "bnd (Inr x) f = f x"
  by (simp add: bnd_def)

lemma bnd_Inl: "bnd (Inl e) f = Inl e"
  by (simp add: bnd_def)

lemma mapM_map: "(\<And>x. x \<in> set xs \<Longrightarrow> f x = Inr (g x)) \<Longrightarrow> mapM f xs = Inr (map g xs)"
  by (induction xs) (simp_all add: bnd_def)

lemma mapM_map_comp:
  "(\<And>x. x \<in> set xs \<Longrightarrow> f (h x) = Inr (g x)) \<Longrightarrow> mapM f (map h xs) = Inr (map g xs)"
  by (induction xs) (simp_all add: bnd_def)

lemma lib_ne_ValueError: "lib r \<noteq> Inl (ValueError v)"
  by (cases r) (simp_all add: lib_def)

lemma bnd_lib_ne: "(\<And>x. f x \<noteq> Inl (ValueError v)) \<Longrightarrow> bnd (lib r) f \<noteq> Inl (ValueError v)"
  by (cases r) (simp_all add: lib_def bnd_def)

lemma fit_model_Some: "fit L self df = Inr self' \<Longrightarrow> \<exists>m. model self' = Some m"
  by (auto simp: fit_def bnd_Inr_iff split: prod.splits)

section \<open>Properties of the loader\<close>

text \<open>
  C3. Once the reader has returned a table, \<open>load\<close> raises ValueError if and only if at
  least one of the columns Date, Clicks, Impressions, CTR, Position is absent from that
  table, and when all five are present it returns the table as read.
\<close>

theorem load_value_error_iff:
  assumes "read_csv (file_path self) = Inr df"
  shows "((\<exists>r. load read_csv self = Inl (ValueError r)) \<longleftrightarrow>
            (\<exists>c \<in> {''Date'', ''Clicks'', ''Impressions'', ''CTR'', ''Position''}. c \<notin> set (columns df)))
         \<and> ({''Date'', ''Clicks'', ''Impressions'', ''CTR'', ''Position''} \<subseteq> set (columns df)
              \<longrightarrow> load read_csv self = Inr df)"
  using assms by (auto simp: load_def bnd_def required_columns_def Let_def)

theorem load_value_error_iff_witness:
  "load (\<lambda>p. Inr \<lparr>columns = [''Date'', ''Clicks'', ''Impressions'', ''CTR'', ''Position''], rows = []\<rparr>)
        \<lparr>file_path = ''traffic.csv''\<rparr>
     = Inr \<lparr>columns = [''Date'', ''Clicks'', ''Impressions'', ''CTR'', ''Position''], rows = []\<rparr>
   \<and> (\<exists>r. load (\<lambda>p. Inr \<lparr>columns = [''Date'', ''Clicks''], rows = []\<rparr>)
        \<lparr>file_path = ''traffic.csv''\<rparr> = Inl (ValueError r))"
proof -
  let ?full = "\<lparr>columns = [''Date'', ''Clicks'', ''Impressions'', ''CTR'', ''Position''], rows = []\<rparr>"
  let ?part = "\<lparr>columns = [''Date'', ''Clicks''], rows = []\<rparr>"
  let ?self = "\<lparr>file_path = ''traffic.csv''\<rparr>"
  have a: "load (\<lambda>p. Inr ?full) ?self = Inr ?full"
    using load_value_error_iff [of "\<lambda>p. Inr ?full" ?self ?full] by simp
  have b: "\<exists>r. load (\<lambda>p. Inr ?part) ?self = Inl (ValueError r)"
    using load_value_error_iff [of "\<lambda>p. Inr ?part" ?self ?part] by simp
  from a b show ?thesis by simp
qed

section \<open>Properties of the forecasting wrapper\<close>

lemma fit_five_days:
  "\<exists>s. fit recording_lib (TrafficProphetModel_init Config_default) five_days = Inr s"
  by (simp add: fit_def split_data_def recording_lib_def five_days_def TrafficProphetModel_init_def Config_default_def
     create_model_def lib_def bnd_def iloc_to_def iloc_from_def slice_bound_def py_int_def getitems_def validate_def getitem_def setitem_def)







text \<open>
  C4. On an object on which \<open>fit\<close> has not been called, \<open>predict\<close> and \<open>cross_validate\<close>
  raise the ValueError that says the model must be fitted first; on the object a
  successful \<open>fit\<close> returns, neither of them raises a ValueError.
\<close>

theorem not_fitted_value_error:
  "predict L (TrafficProphetModel_init cfg) periods =
     Inl (ValueError (NotFitted ''Model must be fitted before prediction''))
   \<and> cross_validate L (TrafficProphetModel_init cfg) i p h =
     Inl (ValueError (NotFitted ''Model must be fitted before cross-validation''))
   \<and> (fit L self df = Inr self' \<longrightarrow>
        (\<forall>v. predict L self' periods \<noteq> Inl (ValueError v))
        \<and> (\<forall>v. cross_validate L self' i p h \<noteq> Inl (ValueError v)))"
proof -
  have a: "predict L (TrafficProphetModel_init cfg) periods =
     Inl (ValueError (NotFitted ''Model must be fitted before prediction''))"
    by (simp add: predict_def TrafficProphetModel_init_def)
  have b: "cross_validate L (TrafficProphetModel_init cfg) i p h =
     Inl (ValueError (NotFitted ''Model must be fitted before cross-validation''))"
    by (simp add: cross_validate_def TrafficProphetModel_init_def)
  have c: "(\<forall>v. predict L self' periods \<noteq> Inl (ValueError v))
        \<and> (\<forall>v. cross_validate L self' i p h \<noteq> Inl (ValueError v))"
    if "fit L self df = Inr self'"
  proof -
    from fit_model_Some [OF that] obtain m where m: "model self' = Some m" ..
    have "predict L self' periods \<noteq> Inl (ValueError v)" for v
      unfolding predict_def m option.case
      by (intro bnd_lib_ne) simp
    moreover have "cross_validate L self' i p h \<noteq> Inl (ValueError v)" for v
      unfolding cross_validate_def m option.case
      by (intro bnd_lib_ne) (simp add: bnd_def getitem_def)
    ultimately show ?thesis by blast
  qed
  from a b c show ?thesis by blast
qed

theorem not_fitted_value_error_witness:
  "\<exists>self'. fit recording_lib (TrafficProphetModel_init Config_default) five_days = Inr self'
     \<and> predict recording_lib self' 90 \<noteq>
         Inl (ValueError (NotFitted ''Model must be fitted before prediction''))
     \<and> cross_validate recording_lib self' 365 30 30 \<noteq>
         Inl (ValueError (NotFitted ''Model must be fitted before cross-validation''))
     \<and> predict recording_lib
          (TrafficProphetModel_init Config_default :: frame option TrafficProphetModel) 90 =
         Inl (ValueError (NotFitted ''Model must be fitted before prediction''))"
proof -
  let ?self = "TrafficProphetModel_init Config_default :: frame option TrafficProphetModel"
  obtain s where s: "fit recording_lib ?self five_days = Inr s"
    using fit_five_days by blast
  from not_fitted_value_error [of recording_lib Config_default 90 365 30 30 ?self five_days s] s
  show ?thesis by blast
qed

section \<open>Properties of the extraction of future predictions\<close>

lemma set_map_filter_id: "set (List.map_filter (\<lambda>x. x) xs) = {m. Some m \<in> set xs}"
  by (induction xs) (auto simp: List.map_filter_simps split: option.splits)

lemma ts_gt_ts_max:
  "ts_gt k (ts_max xs) =
     (\<exists>t. k = Some t \<and> (\<exists>m. Some m \<in> set xs) \<and> (\<forall>m. Some m \<in> set xs \<longrightarrow> m < t))"
proof (cases "List.map_filter (\<lambda>x. x) xs")
  case Nil
  then have "{m. Some m \<in> set xs} = {}" using set_map_filter_id [of xs] by simp
  then have "\<not> (\<exists>m. Some m \<in> set xs)" by blast
  then show ?thesis using Nil by (cases k) (simp_all add: ts_max_def)
next
  case (Cons a as)
  have s: "set (a # as) = {m. Some m \<in> set xs}" using set_map_filter_id [of xs] Cons by simp
  have m: "ts_max xs = Some (Max (set (a # as)))"
    using Cons Max.set_eq_fold [of a as] by (simp add: ts_max_def)
  have ne: "\<exists>m. Some m \<in> set xs" using s by auto
  show ?thesis
  proof (cases k)
    case None
    then show ?thesis by simp
  next
    case (Some t)
    have "(Max (set (a # as)) < t) = (\<forall>m \<in> set (a # as). m < t)"
      by (rule Max_less_iff) simp_all
    then show ?thesis unfolding m Some s using ne by simp
  qed
qed

lemma filter_zip_map: "map fst (filter snd (zip xs (map p xs))) = filter p xs"
  by (induction xs) simp_all

lemma setitem_rows_map:
  "rows df = map u xs \<Longrightarrow> rows (setitem df c (map h xs)) = map (\<lambda>x. (u x)(c \<mapsto> h x)) xs"
  by (simp add: setitem_def zip_map_map zip_same_conv_map)

lemma setitem_columns: "c' \<in> set (columns df) \<Longrightarrow> c' \<in> set (columns (setitem df c vs))"
  by (simp add: setitem_def)

lemma setitem_columns_self: "c \<in> set (columns (setitem df c vs))"
  by (simp add: setitem_def)

lemma rint_nearest: "\<bar>x - real_of_int (rint x)\<bar> \<le> \<bar>x - real_of_int j\<bar>"
proof -
  define f where "f = \<lfloor>x\<rfloor>"
  define d where "d = x - real_of_int f"
  have fl: "0 \<le> d" "d < 1" unfolding d_def f_def by linarith+
  have r: "(rint x = f \<and> d \<le> 1 / 2) \<or> (rint x = f + 1 \<and> 1 / 2 \<le> d)"
    unfolding rint_def Let_def f_def [symmetric] d_def [symmetric] by auto
  have a1: "\<bar>x - real_of_int f\<bar> = d" using fl unfolding d_def by simp
  have a2: "\<bar>x - real_of_int (f + 1)\<bar> = 1 - d" using fl unfolding d_def by simp
  have "j \<le> f \<or> f + 1 \<le> j" by linarith
  then have b: "(d \<le> \<bar>x - real_of_int j\<bar> \<and> real_of_int j \<le> real_of_int f)
              \<or> (1 - d \<le> \<bar>x - real_of_int j\<bar> \<and> real_of_int f + 1 \<le> real_of_int j)"
  proof
    assume "j \<le> f"
    then have "real_of_int j \<le> real_of_int f" by simp
    then show ?thesis unfolding d_def by linarith
  next
    assume "f + 1 \<le> j"
    then have "real_of_int (f + 1) \<le> real_of_int j" by (simp only: of_int_le_iff)
    then have "real_of_int f + 1 \<le> real_of_int j" by simp
    then show ?thesis unfolding d_def by linarith
  qed
  from r show ?thesis
  proof
    assume "rint x = f \<and> d \<le> 1 / 2"
    then show ?thesis using a1 b fl unfolding d_def by linarith
  next
    assume "rint x = f + 1 \<and> 1 / 2 \<le> d"
    then show ?thesis using a2 b fl unfolding d_def by linarith
  qed
qed

lemma astype_int_fround: "astype_int (fround (Fin a)) = Inr (cast_int64 (real_of_int (rint a)))"
  by simp

lemma cast_int64_rint:
  assumes "- (2 ^ 63) \<le> rint a" "rint a < 2 ^ 63"
  shows "cast_int64 (real_of_int (rint a)) = rint a"
proof -
  have "- (2 ^ 63) \<le> real_of_int (rint a)"
    using assms(1) by (metis of_int_le_iff of_int_minus of_int_numeral of_int_power)
  moreover have "real_of_int (rint a) < 2 ^ 63"
    using assms(2) by (metis of_int_less_iff of_int_numeral of_int_power)
  ultimately show ?thesis by (simp add: cast_int64_def py_int_def)
qed

lemma round_astype_int_map:
  assumes "c \<in> set (columns df)" and "rows df = map u xs"
    and "\<And>x. x \<in> set xs \<Longrightarrow> as_float (cell_at (u x) c) = Inr (Fin (g x))"
  shows "round_astype_int df c = Inr (map (\<lambda>x. I (cast_int64 (real_of_int (rint (g x))))) xs)"
proof -
  have 1: "getitem df c = Inr (map (\<lambda>x. cell_at (u x) c) xs)"
    using assms(1,2) by (simp add: getitem_def)
  have 2: "mapM as_float (map (\<lambda>x. cell_at (u x) c) xs) = Inr (map (\<lambda>x. Fin (g x)) xs)"
    using assms(3) by (intro mapM_map_comp) simp
  have 3: "mapM astype_int (map (\<lambda>x. fround (Fin (g x))) xs)
         = Inr (map (\<lambda>x. cast_int64 (real_of_int (rint (g x)))) xs)"
    by (intro mapM_map_comp [of xs astype_int "\<lambda>x. fround (Fin (g x))"
          "\<lambda>x. cast_int64 (real_of_int (rint (g x)))"])
       (simp del: fround.simps astype_int.simps add: astype_int_fround)
  show ?thesis
    by (simp only: round_astype_int_def 1 2 3 bnd_Inr map_map comp_def)
qed

text \<open>
  C1, as the code has it. Let the ds columns of the forecast and of the historical table
  be datetime columns (timestamps and NaT), and call a forecast row future when its ds is
  a timestamp, the historical table holds a timestamp, and the row's ds is strictly
  greater than every timestamp of the historical table. If yhat, yhat_lower and
  yhat_upper of the future rows are finite numbers, \<open>get_future_predictions\<close> returns
  exactly the future rows, in the order of the forecast, with columns ds, predicted,
  lower_bound and upper_bound, the last three being the 64-bit casts of the roundings of
  yhat, yhat_lower and yhat_upper. The rounding is to a nearest integer, and the cast
  keeps a rounding that fits 64 bits.
\<close>

theorem get_future_predictions_spec:
  fixes forecast historical_df :: frame and hts ts :: "row \<Rightarrow> int option"
  defines "future \<equiv> \<lambda>r. \<exists>t. ts r = Some t
              \<and> (\<exists>m. Some m \<in> hts ` set (rows historical_df))
              \<and> (\<forall>m. Some m \<in> hts ` set (rows historical_df) \<longrightarrow> m < t)"
  assumes cols: "{''ds'', ''yhat'', ''yhat_lower'', ''yhat_upper''} \<subseteq> set (columns forecast)"
      "''ds'' \<in> set (columns historical_df)"
    and hist: "\<forall>r \<in> set (rows historical_df). as_ts (cell_at r ''ds'') = Inr (hts r)"
    and fc: "\<forall>r \<in> set (rows forecast). as_ts (cell_at r ''ds'') = Inr (ts r)"
    and fin: "\<forall>r \<in> set (rows forecast). future r \<longrightarrow>
          as_float (cell_at r ''yhat'') = Inr (Fin (yhat r))
        \<and> as_float (cell_at r ''yhat_lower'') = Inr (Fin (yhat_lower r))
        \<and> as_float (cell_at r ''yhat_upper'') = Inr (Fin (yhat_upper r))"
  shows "get_future_predictions forecast historical_df =
           Inr \<lparr>columns = [''ds'', ''predicted'', ''lower_bound'', ''upper_bound''],
                rows = map (\<lambda>r. [''ds'' \<mapsto> cell_at r ''ds'',
                                  ''predicted'' \<mapsto> I (cast_int64 (real_of_int (rint (yhat r)))),
                                  ''lower_bound'' \<mapsto> I (cast_int64 (real_of_int (rint (yhat_lower r)))),
                                  ''upper_bound'' \<mapsto> I (cast_int64 (real_of_int (rint (yhat_upper r))))])
                           (filter future (rows forecast))\<rparr>
     \<and> (\<forall>x j. \<bar>x - real_of_int (rint x)\<bar> \<le> \<bar>x - real_of_int j\<bar>)
     \<and> (\<forall>x. - (2 ^ 63) \<le> rint x \<and> rint x < 2 ^ 63 \<longrightarrow> cast_int64 (real_of_int (rint x)) = rint x)"
proof -
  define M where "M = ts_max (map hts (rows historical_df))"
  define R where "R = filter future (rows forecast)"
  have h1: "getitem historical_df ''ds'' = Inr (map (\<lambda>r. cell_at r ''ds'') (rows historical_df))"
    using cols by (simp add: getitem_def)
  have h2: "mapM as_ts (map (\<lambda>r. cell_at r ''ds'') (rows historical_df)) = Inr (map hts (rows historical_df))"
    using hist by (intro mapM_map_comp) auto
  have f1: "getitem forecast ''ds'' = Inr (map (\<lambda>r. cell_at r ''ds'') (rows forecast))"
    using cols by (simp add: getitem_def)
  have f2: "mapM as_ts (map (\<lambda>r. cell_at r ''ds'') (rows forecast)) = Inr (map ts (rows forecast))"
    using fc by (intro mapM_map_comp) auto
  have fut: "ts_gt (ts r) M = future r" for r
    unfolding M_def ts_gt_ts_max future_def by simp
  define ff0 where "ff0 = select_mask forecast (map (\<lambda>t. ts_gt t M) (map ts (rows forecast)))"
  have r0: "rows ff0 = map (\<lambda>r. r) R"
    unfolding ff0_def R_def select_mask_def
    using filter_zip_map [of "rows forecast" future] by (simp add: comp_def fut)
  have c0: "columns ff0 = columns forecast" unfolding ff0_def select_mask_def by simp
  have inR: "r \<in> set (rows forecast) \<and> future r" if "r \<in> set R" for r
    using that unfolding R_def by simp
  have p1: "round_astype_int ff0 ''yhat'' = Inr (map (\<lambda>r. I (cast_int64 (real_of_int (rint (yhat r))))) R)"
    by (rule round_astype_int_map [OF _ r0]) (use cols c0 fin inR in auto)
  define ff1 where "ff1 = setitem ff0 ''predicted'' (map (\<lambda>r. I (cast_int64 (real_of_int (rint (yhat r))))) R)"
  have r1: "rows ff1 = map (\<lambda>r. r(''predicted'' \<mapsto> I (cast_int64 (real_of_int (rint (yhat r)))))) R"
    unfolding ff1_def using setitem_rows_map [OF r0] by simp
  have c1: "set (columns forecast) \<subseteq> set (columns ff1)" "''predicted'' \<in> set (columns ff1)"
    unfolding ff1_def using c0 by (auto simp: setitem_def)
  have p2: "round_astype_int ff1 ''yhat_lower'' = Inr (map (\<lambda>r. I (cast_int64 (real_of_int (rint (yhat_lower r))))) R)"
    by (rule round_astype_int_map [OF _ r1]) (use cols c1 fin inR in \<open>auto simp: cell_at_def\<close>)
  define ff2 where "ff2 = setitem ff1 ''lower_bound'' (map (\<lambda>r. I (cast_int64 (real_of_int (rint (yhat_lower r))))) R)"
  have r2: "rows ff2 = map (\<lambda>r. r(''predicted'' \<mapsto> I (cast_int64 (real_of_int (rint (yhat r)))),
                                 ''lower_bound'' \<mapsto> I (cast_int64 (real_of_int (rint (yhat_lower r)))))) R"
    unfolding ff2_def using setitem_rows_map [OF r1] by simp
  have c2: "set (columns forecast) \<subseteq> set (columns ff2)" "''predicted'' \<in> set (columns ff2)"
      "''lower_bound'' \<in> set (columns ff2)"
    unfolding ff2_def using c1 by (auto simp: setitem_def)
  have p3: "round_astype_int ff2 ''yhat_upper'' = Inr (map (\<lambda>r. I (cast_int64 (real_of_int (rint (yhat_upper r))))) R)"
    by (rule round_astype_int_map [OF _ r2]) (use cols c2 fin inR in \<open>auto simp: cell_at_def\<close>)
  define ff3 where "ff3 = setitem ff2 ''upper_bound'' (map (\<lambda>r. I (cast_int64 (real_of_int (rint (yhat_upper r))))) R)"
  have r3: "rows ff3 = map (\<lambda>r. r(''predicted'' \<mapsto> I (cast_int64 (real_of_int (rint (yhat r)))),
                                 ''lower_bound'' \<mapsto> I (cast_int64 (real_of_int (rint (yhat_lower r)))),
                                 ''upper_bound'' \<mapsto> I (cast_int64 (real_of_int (rint (yhat_upper r)))))) R"
    unfolding ff3_def using setitem_rows_map [OF r2] by simp
  have c3: "''ds'' \<in> set (columns ff3)" "''predicted'' \<in> set (columns ff3)"
      "''lower_bound'' \<in> set (columns ff3)" "''upper_bound'' \<in> set (columns ff3)"
    unfolding ff3_def using c2 cols by (auto simp: setitem_def)
  define out where "out = \<lparr>columns = [''ds'', ''predicted'', ''lower_bound'', ''upper_bound''],
      rows = map (\<lambda>r. r |` set [''ds'', ''predicted'', ''lower_bound'', ''upper_bound'']) (rows ff3)\<rparr>"
  have g: "getitems ff3 [''ds'', ''predicted'', ''lower_bound'', ''upper_bound''] = Inr out"
    using c3 unfolding out_def by (simp add: getitems_def)
  have run: "get_future_predictions forecast historical_df = Inr out"
    by (simp only: get_future_predictions_def h1 h2 M_def [symmetric] f1 f2 bnd_Inr Let_def
        ff0_def [symmetric] p1 ff1_def [symmetric] p2 ff2_def [symmetric] p3 ff3_def [symmetric] g)
  have restr: "(r(''predicted'' \<mapsto> a, ''lower_bound'' \<mapsto> b, ''upper_bound'' \<mapsto> c))
                 |` set [''ds'', ''predicted'', ''lower_bound'', ''upper_bound'']
               = [''ds'' \<mapsto> cell_at r ''ds'', ''predicted'' \<mapsto> a, ''lower_bound'' \<mapsto> b, ''upper_bound'' \<mapsto> c]"
    if "r \<in> set R" for r a b c
  proof -
    from inR [OF that] obtain t where "ts r = Some t" unfolding future_def by blast
    with fc inR [OF that] have "as_ts (cell_at r ''ds'') = Inr (Some t)" by simp
    then have "cell_at r ''ds'' = T t" by (cases "cell_at r ''ds''") simp_all
    then have "r ''ds'' = Some (T t)" by (auto simp: cell_at_def split: option.splits)
    then show ?thesis by (auto simp: restrict_map_def fun_eq_iff cell_at_def)
  qed
  have ro: "rows out = map (\<lambda>r. [''ds'' \<mapsto> cell_at r ''ds'',
                   ''predicted'' \<mapsto> I (cast_int64 (real_of_int (rint (yhat r)))),
                   ''lower_bound'' \<mapsto> I (cast_int64 (real_of_int (rint (yhat_lower r)))),
                   ''upper_bound'' \<mapsto> I (cast_int64 (real_of_int (rint (yhat_upper r))))]) R"
    unfolding out_def using r3 restr by simp
  have "out = \<lparr>columns = [''ds'', ''predicted'', ''lower_bound'', ''upper_bound''],
                rows = map (\<lambda>r. [''ds'' \<mapsto> cell_at r ''ds'',
                   ''predicted'' \<mapsto> I (cast_int64 (real_of_int (rint (yhat r)))),
                   ''lower_bound'' \<mapsto> I (cast_int64 (real_of_int (rint (yhat_lower r)))),
                   ''upper_bound'' \<mapsto> I (cast_int64 (real_of_int (rint (yhat_upper r))))]) R\<rparr>"
    using ro unfolding out_def by simp
  with run show ?thesis
    unfolding R_def using rint_nearest cast_int64_rint by simp
qed

lemma rint_vals: "rint 40 = 40" "rint 35 = 35" "rint 45 = 45" "rint 50 = 50" "rint 55 = 55"
  "rint (109 / 2) = 54" "rint (131 / 2) = 66" "rint (601 / 10) = 60"
  "rint (- (1 / 2)) = 0" "rint (149 / 2) = 74" "rint (347 / 5) = 69"
  by (simp_all add: rint_def Let_def)

theorem get_future_predictions_spec_witness:
  "\<exists>out. get_future_predictions week_forecast five_days = Inr out
     \<and> rows out =
         [[''ds'' \<mapsto> T 5, ''predicted'' \<mapsto> I 60, ''lower_bound'' \<mapsto> I 54, ''upper_bound'' \<mapsto> I 66],
          [''ds'' \<mapsto> T 6, ''predicted'' \<mapsto> I 69, ''lower_bound'' \<mapsto> I 0, ''upper_bound'' \<mapsto> I 74]]"
proof -
  let ?ts = "\<lambda>r. cell_ts (cell_at r ''ds'')"
  let ?y = "\<lambda>r. cell_real (cell_at r ''yhat'')"
  let ?l = "\<lambda>r. cell_real (cell_at r ''yhat_lower'')"
  let ?u = "\<lambda>r. cell_real (cell_at r ''yhat_upper'')"
  let ?future = "\<lambda>r. \<exists>t. ?ts r = Some t
              \<and> (\<exists>m. Some m \<in> ?ts ` set (rows five_days))
              \<and> (\<forall>m. Some m \<in> ?ts ` set (rows five_days) \<longrightarrow> m < t)"
  have 1: "{''ds'', ''yhat'', ''yhat_lower'', ''yhat_upper''} \<subseteq> set (columns week_forecast)"
    by (simp add: week_forecast_def)
  have 2: "''ds'' \<in> set (columns five_days)" by (simp add: five_days_def)
  have 3: "\<forall>r \<in> set (rows five_days). as_ts (cell_at r ''ds'') = Inr (?ts r)"
    by (simp add: five_days_def cell_at_def cell_ts_def)
  have 4: "\<forall>r \<in> set (rows week_forecast). as_ts (cell_at r ''ds'') = Inr (?ts r)"
    by (simp add: week_forecast_def cell_at_def cell_ts_def)
  have hs: "?ts ` set (rows five_days) = {Some 0, Some 1, Some 2, Some 3, Some 4}"
    by (simp add: five_days_def cell_at_def cell_ts_def)
  have fu: "?future r = (\<exists>t. ?ts r = Some t \<and> 4 < t)" for r
    unfolding hs by auto
  have 5: "\<forall>r \<in> set (rows week_forecast). ?future r \<longrightarrow>
          as_float (cell_at r ''yhat'') = Inr (Fin (?y r))
        \<and> as_float (cell_at r ''yhat_lower'') = Inr (Fin (?l r))
        \<and> as_float (cell_at r ''yhat_upper'') = Inr (Fin (?u r))"
    unfolding fu by (simp add: week_forecast_def cell_at_def cell_ts_def cell_real_def)
  from get_future_predictions_spec [of week_forecast five_days ?ts ?ts ?y ?l ?u, OF 1 2 3 4 5]
  have "get_future_predictions week_forecast five_days =
           Inr \<lparr>columns = [''ds'', ''predicted'', ''lower_bound'', ''upper_bound''],
                rows = map (\<lambda>r. [''ds'' \<mapsto> cell_at r ''ds'',
                                  ''predicted'' \<mapsto> I (cast_int64 (real_of_int (rint (?y r)))),
                                  ''lower_bound'' \<mapsto> I (cast_int64 (real_of_int (rint (?l r)))),
                                  ''upper_bound'' \<mapsto> I (cast_int64 (real_of_int (rint (?u r))))])
                           (filter ?future (rows week_forecast))\<rparr>"
    by blast
  then show ?thesis
    unfolding fu
    by (simp add: week_forecast_def cell_at_def cell_ts_def cell_real_def rint_vals
        cast_int64_def py_int_def)
qed

text \<open>
  C1 as stated fails on a forecast whose future row has no prediction: the code raises
  instead of returning the row.
\<close>

theorem get_future_predictions_counterexample:
  "get_future_predictions nan_forecast five_days = Inl IntCastingNaNError"
  by (simp add: get_future_predictions_def nan_forecast_def five_days_def getitem_def bnd_def
      cell_at_def ts_max_def List.map_filter_simps select_mask_def round_astype_int_def)

section \<open>Properties of the preprocessor\<close>

lemma mapM_Inr: "mapM f xs = Inr ys \<Longrightarrow> list_all2 (\<lambda>x y. f x = Inr y) xs ys"
  by (induction xs arbitrary: ys) (auto simp: bnd_Inr_iff)

lemma setitem_rows_rel:
  assumes "list_all2 (\<lambda>x v. e x = Inr v) (rows df) vs"
  shows "list_all2 (\<lambda>r r'. \<exists>v. e r = Inr v \<and> r' = r(c \<mapsto> v)) (rows df) (rows (setitem df c vs))"
proof -
  have "list_all2 (\<lambda>r r'. \<exists>v. e r = Inr v \<and> r' = r(c \<mapsto> v)) xs (map (\<lambda>(r, v). r(c \<mapsto> v)) (zip xs vs))"
    if "list_all2 (\<lambda>x v. e x = Inr v) xs vs" for xs
    using that by (induction xs vs rule: list_all2_induct) auto
  from this [OF assms] show ?thesis by (simp add: setitem_def)
qed

lemma assign_Inr:
  assumes "assign h df (c, srcs, accessor, e) = Inr h'" and "df < length h"
  shows "length h' = length h \<and> (\<forall>r. r \<noteq> df \<longrightarrow> h' ! r = h ! r)
       \<and> list_all2 (\<lambda>r r'. \<exists>v. e r = Inr v \<and> r' = r(c \<mapsto> v)) (rows (h ! df)) (rows (h' ! df))"
proof -
  from assms(1) obtain vs where vs: "mapM e (rows (h ! df)) = Inr vs"
    and h': "h' = h[df := setitem (h ! df) c vs]"
    by (auto simp: assign_def bnd_Inr_iff split: list.splits option.splits)
  from setitem_rows_rel [OF mapM_Inr [OF vs], of c] assms(2) show ?thesis
    unfolding h' by simp
qed

lemma run_Inr:
  assumes "run h df sts = Inr h'" and "df < length h"
  shows "length h' = length h \<and> (\<forall>r. r \<noteq> df \<longrightarrow> h' ! r = h ! r)
       \<and> list_all2 (\<lambda>r r'. row_run sts r = Inr r') (rows (h ! df)) (rows (h' ! df))"
  using assms
proof (induction sts arbitrary: h)
  case Nil
  then show ?case by (simp add: list_all2_same)
next
  case (Cons st sts)
  obtain c srcs accessor e where st: "st = (c, srcs, accessor, e)" by (cases st)
  from Cons.prems obtain h1 where a: "assign h df (c, srcs, accessor, e) = Inr h1"
    and r: "run h1 df sts = Inr h'"
    unfolding st by (auto simp: bnd_Inr_iff)
  note A = assign_Inr [OF a Cons.prems(2)]
  from A have l1: "df < length h1" using Cons.prems(2) by simp
  note B = Cons.IH [OF r l1]
  have "list_all2 (\<lambda>r r'. row_run ((c, srcs, accessor, e) # sts) r = Inr r')
          (rows (h ! df)) (rows (h' ! df))"
  proof (rule list_all2_trans [of _ _ _ "rows (h ! df)" "rows (h1 ! df)" "rows (h' ! df)"])
    show "list_all2 (\<lambda>r r'. \<exists>v. e r = Inr v \<and> r' = r(c \<mapsto> v)) (rows (h ! df)) (rows (h1 ! df))"
      using A by simp
    show "list_all2 (\<lambda>r r'. row_run sts r = Inr r') (rows (h1 ! df)) (rows (h' ! df))"
      using B by simp
  qed (auto simp: bnd_def)
  with A B show ?case unfolding st by simp
qed


lemma parse_datetime_is_datetime:
  "parse_datetime P c = Inr d \<Longrightarrow> is_datetime d"
  by (cases "(P, c)" rule: parse_datetime.cases)
     (auto simp: epoch_ns_def split: option.splits if_splits)

lemma as_ts_Some: "as_ts c = Inr (Some t) \<Longrightarrow> c = T t"
  by (cases c) auto

lemma as_ts_None: "as_ts c = Inr None \<Longrightarrow> c = NaT"
  by (cases c) auto

lemma process_steps_row:
  assumes "row_run (process_steps P) r = Inr a"
  shows "\<exists>d. parse_datetime P (cell_at r ''Date'') = Inr d
      \<and> a = r(''ds'' \<mapsto> d, ''y'' \<mapsto> cell_at r ''Clicks'',
             ''ctr'' \<mapsto> percent_cell P (cell_at r ''CTR''),
             ''position'' \<mapsto> cell_at r ''Position'')"
  using assms by (auto simp: process_steps_def bnd_Inr_iff cell_at_def)

lemma dt_int_Inr:
  "dt_int f r = Inr v \<longleftrightarrow>
     (\<exists>t. as_ts (cell_at r ''ds'') = Inr t \<and> v = (case t of Some t \<Rightarrow> I (f t) | None \<Rightarrow> F NaN))"
  by (auto simp: dt_int_def bnd_Inr_iff)

lemma dt_bool_int_Inr:
  "dt_bool_int f r = Inr v \<longleftrightarrow>
     (\<exists>t. as_ts (cell_at r ''ds'') = Inr t
        \<and> v = (case t of Some t \<Rightarrow> I (if f t then 1 else 0) | None \<Rightarrow> I 0))"
  by (auto simp: dt_bool_int_def bnd_Inr_iff)

lemma weekend_of_day_of_week:
  "as_float (case t of Some t \<Rightarrow> I (f t) | None \<Rightarrow> F NaN) = Inr d \<longleftrightarrow>
     d = (case t of Some t \<Rightarrow> Fin (of_int (f t)) | None \<Rightarrow> NaN)"
  "fge (case t of Some t \<Rightarrow> Fin (of_int (f t)) | None \<Rightarrow> NaN) (Fin 5)
     = (case t of Some t \<Rightarrow> 5 \<le> f t | None \<Rightarrow> False)"
  "(if (case t of Some t \<Rightarrow> 5 \<le> f t | None \<Rightarrow> False) then 1 else (0::int))
     = (case t of Some t \<Rightarrow> if 5 \<le> f t then 1 else 0 | None \<Rightarrow> 0)"
  by (cases t; auto)+

lemma feature_steps_row:
  assumes "row_run feature_steps a = Inr r'"
  shows "\<exists>t y i p. as_ts (cell_at a ''ds'') = Inr t \<and> as_float (cell_at a ''y'') = Inr y
      \<and> as_float (cell_at a ''Impressions'') = Inr i \<and> as_float (cell_at a ''position'') = Inr p
      \<and> r' = a(''day_of_week'' \<mapsto> (case t of Some t \<Rightarrow> I (dt_dayofweek t) | None \<Rightarrow> F NaN),
             ''day_of_month'' \<mapsto> (case t of Some t \<Rightarrow> I (dt_day t) | None \<Rightarrow> F NaN),
             ''week_of_year'' \<mapsto> (case t of Some t \<Rightarrow> I (dt_isoweek t) | None \<Rightarrow> F NaN),
             ''month'' \<mapsto> (case t of Some t \<Rightarrow> I (dt_month t) | None \<Rightarrow> F NaN),
             ''quarter'' \<mapsto> (case t of Some t \<Rightarrow> I (dt_quarter t) | None \<Rightarrow> F NaN),
             ''year'' \<mapsto> (case t of Some t \<Rightarrow> I (dt_year t) | None \<Rightarrow> F NaN),
             ''is_weekend'' \<mapsto>
                I (case t of Some t \<Rightarrow> if 5 \<le> dt_dayofweek t then 1 else 0 | None \<Rightarrow> 0),
             ''is_month_end'' \<mapsto>
                (case t of Some t \<Rightarrow> I (if dt_is_month_end t then 1 else 0) | None \<Rightarrow> I 0),
             ''is_month_start'' \<mapsto>
                (case t of Some t \<Rightarrow> I (if dt_is_month_start t then 1 else 0) | None \<Rightarrow> I 0),
             ''clicks_per_impression'' \<mapsto> F (fdiv y i),
             ''position_impact'' \<mapsto> F (fdiv (Fin 1) p))"
  using assms
  by (auto simp: feature_steps_def bnd_Inr_iff cell_at_def dt_int_Inr dt_bool_int_Inr
       weekend_of_day_of_week)

lemma list_all2_map_eq:
  "list_all2 (\<lambda>x y. f y = g x) xs ys \<Longrightarrow> map f ys = map g xs"
  by (induction xs ys rule: list_all2_induct) auto

lemma process_Inr:
  assumes "process P h df = Inr (h', out)" and "df < length h"
  shows "\<exists>A ts. length h' = length h + 3 \<and> out = length h + 2
      \<and> (\<forall>r < length h. h' ! r = h ! r)
      \<and> list_all2 (\<lambda>r a. row_run (process_steps P) r = Inr a) (rows (h ! df)) A
      \<and> list_all2 (\<lambda>a t. as_ts (cell_at a ''ds'') = Inr t) A ts
      \<and> list_all2 (\<lambda>a r'. row_run feature_steps a = Inr r') (sort_rows ts A) (rows (h' ! out))"
proof -
  let ?n = "length h"
  let ?h0 = "h @ [h ! df]"
  from assms(1) obtain h1 h2 sorted where
    r1: "run ?h0 ?n (process_steps P) = Inr h1" and
    sv: "sort_values h1 ?n ''ds'' = Inr (h2, sorted)" and
    r2: "add_features (fst (reset_index h2 sorted)) (snd (reset_index h2 sorted)) = Inr (h', out)"
    by (auto simp: process_def df_copy_def bnd_Inr_iff case_prod_beta)
  have n0: "?n < length ?h0" by simp
  note R1 = run_Inr [OF r1 n0]
  define A where "A = rows (h1 ! ?n)"
  have a1: "list_all2 (\<lambda>r a. row_run (process_steps P) r = Inr a) (rows (h ! df)) A"
    using R1 unfolding A_def by simp
  have l1: "length h1 = ?n + 1" using R1 by simp
  have k1: "\<forall>r < ?n. h1 ! r = h ! r" using R1 by (auto simp: nth_append)
  from sv obtain ts where
    ts: "mapM as_ts (map (\<lambda>r. cell_at r ''ds'') A) = Inr ts" and
    h2: "h2 = h1 @ [(h1 ! ?n)\<lparr>rows := sort_rows ts A\<rparr>]" and
    so: "sorted = length h1"
    by (auto simp: sort_values_def bnd_Inr_iff getitem_def A_def split: if_splits)
  have a2: "list_all2 (\<lambda>a t. as_ts (cell_at a ''ds'') = Inr t) A ts"
    using mapM_Inr [OF ts] by (simp add: list_all2_map1)
  define h3 where "h3 = h2 @ [h2 ! sorted]"
  have ri: "reset_index h2 sorted = (h3, ?n + 2)"
    by (simp add: reset_index_def h3_def h2 l1)
  from r2 have r3: "run h3 (?n + 2) feature_steps = Inr h'" and out: "out = ?n + 2"
    unfolding ri by (auto simp: add_features_def bnd_Inr_iff)
  have n3: "?n + 2 < length h3" unfolding h3_def h2 using l1 by simp
  note R3 = run_Inr [OF r3 n3]
  have rows3: "rows (h3 ! (?n + 2)) = sort_rows ts A"
    unfolding h3_def h2 so using l1 by (simp add: nth_append)
  have k3: "\<forall>r < ?n. h3 ! r = h ! r"
    unfolding h3_def h2 using l1 k1 by (simp add: nth_append)
  have "length h' = ?n + 3" using R3 unfolding h3_def h2 using l1 by simp
  moreover have "\<forall>r < ?n. h' ! r = h ! r" using R3 k3 by simp
  moreover have "list_all2 (\<lambda>a r'. row_run feature_steps a = Inr r')
           (sort_rows ts A) (rows (h' ! out))"
    using R3 rows3 out by simp
  ultimately show ?thesis using out a1 a2 by blast
qed

lemma process_InrE:
  assumes "process P h df = Inr (h', out)" and "df < length h"
  obtains A ts where
    "list_all2 (\<lambda>r a. row_run (process_steps P) r = Inr a) (rows (h ! df)) A"
    "list_all2 (\<lambda>a t. as_ts (cell_at a ''ds'') = Inr t) A ts"
    "list_all2 (\<lambda>a r'. row_run feature_steps a = Inr r') (sort_rows ts A) (rows (h' ! out))"
  using process_Inr [OF assms] by (elim exE conjE) (rule that)

lemma feature_steps_keep:
  assumes "row_run feature_steps a = Inr r'"
  shows "r' ''ds'' = a ''ds'' \<and> cell_at r' ''ds'' = cell_at a ''ds''
       \<and> cell_at r' ''Position'' = cell_at a ''Position''
       \<and> cell_at r' ''position'' = cell_at a ''position''
       \<and> cell_at r' ''Impressions'' = cell_at a ''Impressions'' \<and> cell_at r' ''y'' = cell_at a ''y''"
  using feature_steps_row [OF assms] by (auto simp: cell_at_def)

lemma present_rows_length:
  "length (List.map_filter (\<lambda>(k, r). map_option (\<lambda>t. (t, r)) k) zs)
     + length (filter (\<lambda>(k, r). k = None) zs) = length zs"
  by (induction zs) (auto simp: map_filter_simps split: option.splits)

lemma present_rows_set:
  "(t, r) \<in> set (List.map_filter (\<lambda>(k, r). map_option (\<lambda>t. (t, r)) k) zs)
     \<longleftrightarrow> (Some t, r) \<in> set zs"
  by (induction zs) (auto simp: map_filter_simps split: option.splits)

lemma sort_rows_length:
  assumes "length ts = length A"
  shows "length (sort_rows ts A) = length A"
proof -
  have "length (sort_rows ts A) = length (zip ts A)"
    unfolding sort_rows_def using present_rows_length [of "zip ts A"] by simp
  with assms show ?thesis by simp
qed

lemma sort_rows_set: "set (sort_rows ts A) \<subseteq> set A"
proof
  fix r assume "r \<in> set (sort_rows ts A)"
  then consider t where "(t, r) \<in> set (List.map_filter (\<lambda>(k, r). map_option (\<lambda>t. (t, r)) k) (zip ts A))"
    | k where "(k, r) \<in> set (zip ts A)"
    unfolding sort_rows_def by force
  then show "r \<in> set A"
  proof cases
    case 1
    then have "(Some t, r) \<in> set (zip ts A)" by (simp only: present_rows_set)
    then show ?thesis by (rule set_zip_rightD)
  next
    case 2
    then show ?thesis by (rule set_zip_rightD)
  qed
qed

lemma zip_rel:
  assumes "list_all2 R A ts" and "(k, a) \<in> set (zip ts A)"
  shows "R a k"
proof -
  from assms(2) obtain i where "i < length A" "i < length ts" "ts ! i = k" "A ! i = a"
    by (auto simp: set_zip)
  with list_all2_nthD [OF assms(1), of i] show ?thesis by simp
qed

lemma sort_rows_ds:
  assumes "list_all2 (\<lambda>a t. as_ts (cell_at a ''ds'') = Inr t) A ts"
  shows "\<exists>us m. sorted us \<and> map (\<lambda>r. cell_at r ''ds'') (sort_rows ts A) = map T us @ replicate m NaT"
proof -
  define S where "S = sort_key fst (List.map_filter (\<lambda>(k, r). map_option (\<lambda>t. (t, r)) k) (zip ts A))"
  define N where "N = filter (\<lambda>(k, r). k = None) (zip ts A)"
  have sr: "sort_rows ts A = map snd S @ map snd N"
    unfolding sort_rows_def S_def N_def ..
  have "map (\<lambda>p. cell_at (snd p) ''ds'') S = map (\<lambda>p. T (fst p)) S"
  proof (rule map_cong [OF refl])
    fix p assume "p \<in> set S"
    then have "(fst p, snd p) \<in> set (List.map_filter (\<lambda>(k, r). map_option (\<lambda>t. (t, r)) k) (zip ts A))"
      unfolding S_def by simp
    then have "(Some (fst p), snd p) \<in> set (zip ts A)" by (simp only: present_rows_set)
    from zip_rel [OF assms this] show "cell_at (snd p) ''ds'' = T (fst p)" by (rule as_ts_Some)
  qed
  then have 1: "map (\<lambda>r. cell_at r ''ds'') (map snd S) = map T (map fst S)"
    by (simp add: comp_def)
  have "map (\<lambda>p. cell_at (snd p) ''ds'') N = map (\<lambda>p. NaT) N"
  proof (rule map_cong [OF refl])
    fix p assume "p \<in> set N"
    then have "(None, snd p) \<in> set (zip ts A)" unfolding N_def by auto
    from zip_rel [OF assms this] show "cell_at (snd p) ''ds'' = NaT" by (rule as_ts_None)
  qed
  then have 2: "map (\<lambda>r. cell_at r ''ds'') (map snd N) = replicate (length N) NaT"
    by (simp add: comp_def map_replicate_const)
  have 3: "sorted (map fst S)" unfolding S_def by (rule sorted_sort_key)
  from 1 2 3 show ?thesis unfolding sr by (intro exI [of _ "map fst S"] exI [of _ "length N"]) simp
qed

lemma process_sorted:
  assumes "process P h df = Inr (h', out)" and "df < length h"
  shows "\<exists>us m. sorted us
           \<and> map (\<lambda>r. cell_at r ''ds'') (rows (h' ! out)) = map T us @ replicate m NaT"
proof -
  from assms obtain A ts where
    a2: "list_all2 (\<lambda>a t. as_ts (cell_at a ''ds'') = Inr t) A ts" and
    a3: "list_all2 (\<lambda>a r'. row_run feature_steps a = Inr r') (sort_rows ts A) (rows (h' ! out))"
    by (rule process_InrE)
  have "list_all2 (\<lambda>a r'. cell_at r' ''ds'' = cell_at a ''ds'') (sort_rows ts A) (rows (h' ! out))"
    by (rule list_all2_mono [OF a3]) (simp add: feature_steps_keep)
  then have "map (\<lambda>r. cell_at r ''ds'') (rows (h' ! out)) = map (\<lambda>r. cell_at r ''ds'') (sort_rows ts A)"
    by (rule list_all2_map_eq)
  with sort_rows_ds [OF a2] show ?thesis by simp
qed

lemma process_length:
  assumes "process P h df = Inr (h', out)" and "df < length h"
  shows "length (rows (h' ! out)) = length (rows (h ! df))"
proof -
  from assms obtain A ts where
    a1: "list_all2 (\<lambda>r a. row_run (process_steps P) r = Inr a) (rows (h ! df)) A" and
    a2: "list_all2 (\<lambda>a t. as_ts (cell_at a ''ds'') = Inr t) A ts" and
    a3: "list_all2 (\<lambda>a r'. row_run feature_steps a = Inr r') (sort_rows ts A) (rows (h' ! out))"
    by (rule process_InrE)
  have "length (rows (h' ! out)) = length (sort_rows ts A)"
    using a3 by (auto dest: list_all2_lengthD)
  also have "\<dots> = length A"
    by (rule sort_rows_length) (rule list_all2_lengthD [OF a2, symmetric])
  also have "\<dots> = length (rows (h ! df))" using a1 by (auto dest: list_all2_lengthD)
  finally show ?thesis .
qed

lemma handle_outliers_frame:
  assumes "handle_outliers h df z = Inr (h'', out')" and "df < length h"
  shows "(\<forall>r < length h. h'' ! r = h ! r) \<and> out' = length h \<and> length h'' = length h + 1"
  using assms
  by (auto simp: handle_outliers_def df_copy_def bnd_Inr_iff Let_def nth_append)

lemma process_steps_keep:
  assumes "row_run (process_steps P) r = Inr a"
  shows "cell_at a ''position'' = cell_at a ''Position'' \<and> (\<exists>d. a ''ds'' = Some d \<and> is_datetime d)"
  using process_steps_row [OF assms] parse_datetime_is_datetime [of P "cell_at r ''Date''"]
  by (auto simp: cell_at_def)

lemma feature_steps_vals:
  assumes "row_run feature_steps a = Inr r"
  shows "\<exists>p. as_float (cell_at a ''position'') = Inr p
      \<and> r ''is_weekend'' =
          Some (I (if \<exists>t. cell_at a ''ds'' = T t \<and> 5 \<le> dt_dayofweek t then 1 else 0))
      \<and> r ''position_impact'' = Some (F (fdiv (Fin 1) p))"
proof -
  from feature_steps_row [OF assms] obtain t y i p where
    t: "as_ts (cell_at a ''ds'') = Inr t" and p: "as_float (cell_at a ''position'') = Inr p" and
    r: "r = a(''day_of_week'' \<mapsto> (case t of Some t \<Rightarrow> I (dt_dayofweek t) | None \<Rightarrow> F NaN),
             ''day_of_month'' \<mapsto> (case t of Some t \<Rightarrow> I (dt_day t) | None \<Rightarrow> F NaN),
             ''week_of_year'' \<mapsto> (case t of Some t \<Rightarrow> I (dt_isoweek t) | None \<Rightarrow> F NaN),
             ''month'' \<mapsto> (case t of Some t \<Rightarrow> I (dt_month t) | None \<Rightarrow> F NaN),
             ''quarter'' \<mapsto> (case t of Some t \<Rightarrow> I (dt_quarter t) | None \<Rightarrow> F NaN),
             ''year'' \<mapsto> (case t of Some t \<Rightarrow> I (dt_year t) | None \<Rightarrow> F NaN),
             ''is_weekend'' \<mapsto>
                I (case t of Some t \<Rightarrow> if 5 \<le> dt_dayofweek t then 1 else 0 | None \<Rightarrow> 0),
             ''is_month_end'' \<mapsto>
                (case t of Some t \<Rightarrow> I (if dt_is_month_end t then 1 else 0) | None \<Rightarrow> I 0),
             ''is_month_start'' \<mapsto>
                (case t of Some t \<Rightarrow> I (if dt_is_month_start t then 1 else 0) | None \<Rightarrow> I 0),
             ''clicks_per_impression'' \<mapsto> F (fdiv y i),
             ''position_impact'' \<mapsto> F (fdiv (Fin 1) p))"
    by blast
  have w: "r ''is_weekend'' =
      Some (I (case t of Some t \<Rightarrow> if 5 \<le> dt_dayofweek t then 1 else 0 | None \<Rightarrow> 0))"
    unfolding r by simp
  have "(case t of Some t \<Rightarrow> if 5 \<le> dt_dayofweek t then 1 else 0 | None \<Rightarrow> (0::int))
      = (if \<exists>u. cell_at a ''ds'' = T u \<and> 5 \<le> dt_dayofweek u then 1 else 0)"
  proof (cases t)
    case None
    with t have "cell_at a ''ds'' = NaT" by (simp add: as_ts_None)
    with None show ?thesis by simp
  next
    case (Some u)
    with t have "cell_at a ''ds'' = T u" by (simp add: as_ts_Some)
    with Some show ?thesis by simp
  qed
  with w have "r ''is_weekend'' =
      Some (I (if \<exists>t. cell_at a ''ds'' = T t \<and> 5 \<le> dt_dayofweek t then 1 else 0))"
    by simp
  moreover have "r ''position_impact'' = Some (F (fdiv (Fin 1) p))"
    unfolding r by simp
  ultimately show ?thesis using p by blast
qed

lemma weekend_day_name:
  "(5 \<le> dt_dayofweek t) = (dt_day_name t = ''Saturday'' \<or> dt_day_name t = ''Sunday'')"
proof -
  define d where "d = dt_dayofweek t"
  have "0 \<le> d" "d < 7" unfolding d_def dt_dayofweek_def by simp_all
  then have "d = 0 \<or> d = 1 \<or> d = 2 \<or> d = 3 \<or> d = 4 \<or> d = 5 \<or> d = 6" by arith
  then show ?thesis
    unfolding dt_day_name_def d_def [symmetric] day_order_def
    by (elim disjE) simp_all
qed

lemma process_row:
  assumes "process P h df = Inr (h', out)" and "df < length h"
    and "r \<in> set (rows (h' ! out))"
  shows "\<exists>p d. as_float (cell_at r ''Position'') = Inr p
         \<and> r ''position_impact'' = Some (F (fdiv (Fin 1) p))
         \<and> r ''ds'' = Some d \<and> is_datetime d
         \<and> r ''is_weekend'' =
             Some (I (if \<exists>t. d = T t \<and> (dt_day_name t = ''Saturday'' \<or> dt_day_name t = ''Sunday'')
                      then 1 else 0))"
proof -
  from assms(1,2) obtain A ts where
    a1: "list_all2 (\<lambda>r a. row_run (process_steps P) r = Inr a) (rows (h ! df)) A" and
    a3: "list_all2 (\<lambda>a r'. row_run feature_steps a = Inr r') (sort_rows ts A) (rows (h' ! out))"
    by (rule process_InrE)
  from assms(3) obtain i where i: "i < length (rows (h' ! out))" "rows (h' ! out) ! i = r"
    by (auto simp: in_set_conv_nth)
  define a where "a = sort_rows ts A ! i"
  from list_all2_nthD2 [OF a3 i(1)] i(2) have ra: "row_run feature_steps a = Inr r"
    unfolding a_def by simp
  have "i < length (sort_rows ts A)"
    using i(1) list_all2_lengthD [OF a3] by simp
  then have "a \<in> set (sort_rows ts A)"
    unfolding a_def by (rule nth_mem)
  with sort_rows_set have "a \<in> set A" by blast
  then obtain j where j: "j < length A" "A ! j = a" by (auto simp: in_set_conv_nth)
  from list_all2_nthD2 [OF a1 j(1)] j(2) have "row_run (process_steps P) (rows (h ! df) ! j) = Inr a"
    by simp
  from process_steps_keep [OF this] obtain d where
    pos: "cell_at a ''position'' = cell_at a ''Position''" and
    d: "a ''ds'' = Some d" "is_datetime d"
    by blast
  from feature_steps_vals [OF ra] obtain p where
    p: "as_float (cell_at a ''position'') = Inr p" and
    w: "r ''is_weekend'' =
          Some (I (if \<exists>t. cell_at a ''ds'' = T t \<and> 5 \<le> dt_dayofweek t then 1 else 0))" and
    q: "r ''position_impact'' = Some (F (fdiv (Fin 1) p))"
    by blast
  from feature_steps_keep [OF ra] have k: "r ''ds'' = a ''ds''"
    "cell_at r ''Position'' = cell_at a ''Position''" by simp_all
  from d k have ds: "r ''ds'' = Some d" by simp
  from d have ca: "cell_at a ''ds'' = d" by (simp add: cell_at_def)
  have P: "as_float (cell_at r ''Position'') = Inr p" using k pos p by simp
  have w': "r ''is_weekend'' =
      Some (I (if \<exists>t. d = T t \<and> (dt_day_name t = ''Saturday'' \<or> dt_day_name t = ''Sunday'')
               then 1 else 0))"
    unfolding w ca weekend_day_name ..
  from P q ds d(2) w' show ?thesis by blast
qed

lemma process_three_days:
  obtains h' out where
    "process three_days_parsers [three_days_raw] 0 = Inr (h', out)"
    "map (\<lambda>r. (cell_at r ''ds'', cell_at r ''Position'', cell_at r ''Impressions''))
           (rows (h' ! out))
       = [(T 1672963200000000000, F (Fin (5 / 2)), I 90),
          (T 1673049600000000000, F (Fin 0), I 0),
          (NaT, F (Fin 4), I 600)]"
proof -
  have "\<exists>h' out. process three_days_parsers [three_days_raw] 0 = Inr (h', out)
     \<and> map (\<lambda>r. (cell_at r ''ds'', cell_at r ''Position'', cell_at r ''Impressions''))
           (rows (h' ! out))
       = [(T 1672963200000000000, F (Fin (5 / 2)), I 90),
          (T 1673049600000000000, F (Fin 0), I 0),
          (NaT, F (Fin 4), I 600)]"
    by (simp add: process_def df_copy_def process_steps_def assign_def bnd_def setitem_def
        cell_at_def three_days_parsers_def three_days_raw_def no_accessor_def str_accessor_def
        dt_field_def dt_accessor_def sort_rows_def map_filter_simps
        coerce_numeric_def rstrip_def sort_values_def getitem_def reset_index_def
        add_features_def feature_steps_def dt_int_def dt_bool_int_def ns_per_day_def)
  then show thesis by (elim exE conjE) (rule that)
qed

lemma day_names_three_days:
  "dt_day_name 1672963200000000000 = ''Friday''"
  "dt_day_name 1673049600000000000 = ''Saturday''"
  by (simp_all add: dt_day_name_def dt_dayofweek_def days_of_def ns_per_day_def day_order_def)


text \<open>
  C10. \<open>process\<close> and \<open>handle_outliers\<close> leave every table that existed before the call,
  the input among them, as it was: each works on a copy and returns a new object. The
  table \<open>process\<close> returns has as many rows as its input and is sorted by ds: the rows with
  a timestamp come first, their timestamps in nondecreasing order, and the rows whose
  date is missing (NaT) come last.
\<close>

theorem process_copies_and_sorts:
  assumes "df < length h"
  shows "(process P h df = Inr (h', out) \<longrightarrow>
            (\<forall>r < length h. h' ! r = h ! r) \<and> length h \<le> out
          \<and> length (rows (h' ! out)) = length (rows (h ! df))
          \<and> (\<exists>ts m. sorted ts
                \<and> map (\<lambda>r. cell_at r ''ds'') (rows (h' ! out)) = map T ts @ replicate m NaT))
       \<and> (handle_outliers h df z = Inr (h'', out') \<longrightarrow>
            (\<forall>r < length h. h'' ! r = h ! r) \<and> length h \<le> out')"
proof (intro conjI impI)
  assume p: "process P h df = Inr (h', out)"
  from process_Inr [OF p assms]
  show "\<forall>r < length h. h' ! r = h ! r" and "length h \<le> out" by auto
  from process_length [OF p assms]
  show "length (rows (h' ! out)) = length (rows (h ! df))" .
  from process_sorted [OF p assms]
  show "\<exists>ts m. sorted ts
          \<and> map (\<lambda>r. cell_at r ''ds'') (rows (h' ! out)) = map T ts @ replicate m NaT" .
next
  assume o: "handle_outliers h df z = Inr (h'', out')"
  from handle_outliers_frame [OF o assms]
  show "\<forall>r < length h. h'' ! r = h ! r" and "length h \<le> out'" by auto
qed

theorem process_copies_and_sorts_witness:
  "\<exists>h' out. process three_days_parsers [three_days_raw] 0 = Inr (h', out)
     \<and> h' ! 0 = three_days_raw \<and> 1 \<le> out \<and> length (rows (h' ! out)) = 3
     \<and> map (\<lambda>r. cell_at r ''ds'') (rows (h' ! out))
         = [T 1672963200000000000, T 1673049600000000000, NaT]
     \<and> (\<exists>ts m. sorted ts
           \<and> map (\<lambda>r. cell_at r ''ds'') (rows (h' ! out)) = map T ts @ replicate m NaT)"
proof -
  obtain h' out where p: "process three_days_parsers [three_days_raw] 0 = Inr (h', out)"
    and m: "map (\<lambda>r. (cell_at r ''ds'', cell_at r ''Position'', cell_at r ''Impressions''))
           (rows (h' ! out))
       = [(T 1672963200000000000, F (Fin (5 / 2)), I 90),
          (T 1673049600000000000, F (Fin 0), I 0),
          (NaT, F (Fin 4), I 600)]"
    by (rule process_three_days)
  have l: "(0::nat) < length [three_days_raw]" by simp
  have n: "length (rows ([three_days_raw] ! 0)) = 3" by (simp add: three_days_raw_def)
  have "map (\<lambda>r. cell_at r ''ds'') (rows (h' ! out))
      = map fst (map (\<lambda>r. (cell_at r ''ds'', cell_at r ''Position'', cell_at r ''Impressions''))
           (rows (h' ! out)))"
    by (simp add: comp_def)
  then have ds: "map (\<lambda>r. cell_at r ''ds'') (rows (h' ! out))
         = [T 1672963200000000000, T 1673049600000000000, NaT]"
    unfolding m by simp
  from process_copies_and_sorts [OF l, of three_days_parsers h' out] p n ds
  show ?thesis by auto
qed

text \<open>
  C8. In every row of the table \<open>process\<close> returns, position_impact is 1 divided by the
  row's Position (the quotient itself when Position is a nonzero finite number, and the
  value floating-point division gives otherwise), and is_weekend is 1 when the row's ds is
  a timestamp that falls on a Saturday or a Sunday and 0 otherwise, a row whose date is
  missing (NaT) included.
\<close>

theorem process_position_impact_weekend:
  assumes "process P h df = Inr (h', out)" and "df < length h"
  shows "\<forall>r \<in> set (rows (h' ! out)). \<exists>p d.
           as_float (cell_at r ''Position'') = Inr p
         \<and> r ''position_impact'' = Some (F (fdiv (Fin 1) p))
         \<and> (\<forall>x. p = Fin x \<and> x \<noteq> 0 \<longrightarrow> r ''position_impact'' = Some (F (Fin (1 / x))))
         \<and> r ''ds'' = Some d \<and> (d = NaT \<or> (\<exists>t. d = T t))
         \<and> r ''is_weekend'' =
             Some (I (if \<exists>t. d = T t \<and> (dt_day_name t = ''Saturday'' \<or> dt_day_name t = ''Sunday'')
                      then 1 else 0))"
proof
  fix r assume r: "r \<in> set (rows (h' ! out))"
  from process_row [OF assms r] obtain p d where
    P: "as_float (cell_at r ''Position'') = Inr p" and
    q: "r ''position_impact'' = Some (F (fdiv (Fin 1) p))" and
    ds: "r ''ds'' = Some d" and dt: "is_datetime d" and
    w: "r ''is_weekend'' =
         Some (I (if \<exists>t. d = T t \<and> (dt_day_name t = ''Saturday'' \<or> dt_day_name t = ''Sunday'')
                  then 1 else 0))"
    by blast
  have q': "\<forall>x. p = Fin x \<and> x \<noteq> 0 \<longrightarrow> r ''position_impact'' = Some (F (Fin (1 / x)))"
    using q by simp
  from dt have dt': "d = NaT \<or> (\<exists>t. d = T t)" by (cases d) simp_all
  from P q q' ds dt' w
  show "\<exists>p d. as_float (cell_at r ''Position'') = Inr p
         \<and> r ''position_impact'' = Some (F (fdiv (Fin 1) p))
         \<and> (\<forall>x. p = Fin x \<and> x \<noteq> 0 \<longrightarrow> r ''position_impact'' = Some (F (Fin (1 / x))))
         \<and> r ''ds'' = Some d \<and> (d = NaT \<or> (\<exists>t. d = T t))
         \<and> r ''is_weekend'' =
             Some (I (if \<exists>t. d = T t \<and> (dt_day_name t = ''Saturday'' \<or> dt_day_name t = ''Sunday'')
                      then 1 else 0))"
    by blast
qed

theorem process_position_impact_weekend_witness:
  "\<exists>h' out. process three_days_parsers [three_days_raw] 0 = Inr (h', out)
     \<and> (rows (h' ! out) ! 0) ''position_impact'' = Some (F (Fin (2 / 5)))
     \<and> (rows (h' ! out) ! 0) ''is_weekend'' = Some (I 0)
     \<and> (rows (h' ! out) ! 1) ''position_impact'' = Some (F PInf)
     \<and> (rows (h' ! out) ! 1) ''is_weekend'' = Some (I 1)
     \<and> (rows (h' ! out) ! 2) ''ds'' = Some NaT
     \<and> (rows (h' ! out) ! 2) ''position_impact'' = Some (F (Fin (1 / 4)))
     \<and> (rows (h' ! out) ! 2) ''is_weekend'' = Some (I 0)"
proof -
  obtain h' out where p: "process three_days_parsers [three_days_raw] 0 = Inr (h', out)"
    and m: "map (\<lambda>r. (cell_at r ''ds'', cell_at r ''Position'', cell_at r ''Impressions''))
           (rows (h' ! out))
       = [(T 1672963200000000000, F (Fin (5 / 2)), I 90),
          (T 1673049600000000000, F (Fin 0), I 0),
          (NaT, F (Fin 4), I 600)]"
    by (rule process_three_days)
  have l: "(0::nat) < length [three_days_raw]" by simp
  from m obtain x0 x1 x2 where xs: "rows (h' ! out) = [x0, x1, x2]"
    and r0: "cell_at x0 ''ds'' = T 1672963200000000000" "cell_at x0 ''Position'' = F (Fin (5 / 2))"
    and r1: "cell_at x1 ''ds'' = T 1673049600000000000" "cell_at x1 ''Position'' = F (Fin 0)"
    and r2: "cell_at x2 ''ds'' = NaT" "cell_at x2 ''Position'' = F (Fin 4)"
    by (auto simp: map_eq_Cons_conv)
  note th = process_position_impact_weekend [OF p l]
  have ex: "\<exists>p d. as_float (cell_at x ''Position'') = Inr p
         \<and> x ''position_impact'' = Some (F (fdiv (Fin 1) p))
         \<and> cell_at x ''ds'' = d
         \<and> x ''ds'' = Some d
         \<and> x ''is_weekend'' =
             Some (I (if \<exists>t. d = T t \<and> (dt_day_name t = ''Saturday'' \<or> dt_day_name t = ''Sunday'')
                      then 1 else 0))"
    if "x \<in> set (rows (h' ! out))" for x
    using bspec [OF th that] by (auto simp: cell_at_def)
  have "x0 \<in> set (rows (h' ! out))" unfolding xs by simp
  from ex [OF this] obtain p0 d0 where
    f0: "as_float (cell_at x0 ''Position'') = Inr p0"
      "x0 ''position_impact'' = Some (F (fdiv (Fin 1) p0))"
      "cell_at x0 ''ds'' = d0"
      "x0 ''is_weekend'' =
         Some (I (if \<exists>t. d0 = T t \<and> (dt_day_name t = ''Saturday'' \<or> dt_day_name t = ''Sunday'')
                  then 1 else 0))"
    by (elim exE conjE) (rule that)
  from f0(1,3) r0 have p0: "p0 = Fin (5 / 2)" and d0: "d0 = T 1672963200000000000"
    by simp_all
  from f0(2,4) have a: "x0 ''position_impact'' = Some (F (Fin (2 / 5)))"
      "x0 ''is_weekend'' = Some (I 0)"
    unfolding p0 d0 by (simp_all add: day_names_three_days)
  have "x1 \<in> set (rows (h' ! out))" unfolding xs by simp
  from ex [OF this] obtain p1 d1 where
    f1: "as_float (cell_at x1 ''Position'') = Inr p1"
      "x1 ''position_impact'' = Some (F (fdiv (Fin 1) p1))"
      "cell_at x1 ''ds'' = d1"
      "x1 ''is_weekend'' =
         Some (I (if \<exists>t. d1 = T t \<and> (dt_day_name t = ''Saturday'' \<or> dt_day_name t = ''Sunday'')
                  then 1 else 0))"
    by (elim exE conjE) (rule that)
  from f1(1,3) r1 have p1: "p1 = Fin 0" and d1: "d1 = T 1673049600000000000"
    by simp_all
  from f1(2,4) have b: "x1 ''position_impact'' = Some (F PInf)"
      "x1 ''is_weekend'' = Some (I 1)"
    unfolding p1 d1 by (simp_all add: day_names_three_days)
  have "x2 \<in> set (rows (h' ! out))" unfolding xs by simp
  from ex [OF this] obtain p2 d2 where
    f2: "as_float (cell_at x2 ''Position'') = Inr p2"
      "x2 ''position_impact'' = Some (F (fdiv (Fin 1) p2))"
      "cell_at x2 ''ds'' = d2" "x2 ''ds'' = Some d2"
      "x2 ''is_weekend'' =
         Some (I (if \<exists>t. d2 = T t \<and> (dt_day_name t = ''Saturday'' \<or> dt_day_name t = ''Sunday'')
                  then 1 else 0))"
    by (elim exE conjE) (rule that)
  from f2(1,3) r2 have p2: "p2 = Fin 4" and d2: "d2 = NaT"
    by simp_all
  from f2(2,4,5) have c: "x2 ''ds'' = Some NaT" "x2 ''position_impact'' = Some (F (Fin (1 / 4)))"
      "x2 ''is_weekend'' = Some (I 0)"
    unfolding p2 d2 by simp_all
  from p a b c show ?thesis unfolding xs [symmetric] by (simp add: xs)
qed

lemma list_all2_ball_iff:
  "list_all2 (\<lambda>x y. P x = Q y) xs ys \<Longrightarrow> (\<forall>x \<in> set xs. P x) = (\<forall>y \<in> set ys. Q y)"
  by (induction xs ys rule: list_all2_induct) auto

lemma feature_steps_div:
  assumes "row_run feature_steps a = Inr r"
  shows "\<exists>y i p. as_float (cell_at a ''y'') = Inr y \<and> as_float (cell_at a ''Impressions'') = Inr i
      \<and> as_float (cell_at a ''position'') = Inr p
      \<and> cell_at r ''clicks_per_impression'' = F (fdiv y i)
      \<and> cell_at r ''position_impact'' = F (fdiv (Fin 1) p)"
proof -
  from feature_steps_row [OF assms] obtain t y i p where
    y: "as_float (cell_at a ''y'') = Inr y" and i: "as_float (cell_at a ''Impressions'') = Inr i" and
    p: "as_float (cell_at a ''position'') = Inr p" and
    r: "r = a(''day_of_week'' \<mapsto> (case t of Some t \<Rightarrow> I (dt_dayofweek t) | None \<Rightarrow> F NaN),
             ''day_of_month'' \<mapsto> (case t of Some t \<Rightarrow> I (dt_day t) | None \<Rightarrow> F NaN),
             ''week_of_year'' \<mapsto> (case t of Some t \<Rightarrow> I (dt_isoweek t) | None \<Rightarrow> F NaN),
             ''month'' \<mapsto> (case t of Some t \<Rightarrow> I (dt_month t) | None \<Rightarrow> F NaN),
             ''quarter'' \<mapsto> (case t of Some t \<Rightarrow> I (dt_quarter t) | None \<Rightarrow> F NaN),
             ''year'' \<mapsto> (case t of Some t \<Rightarrow> I (dt_year t) | None \<Rightarrow> F NaN),
             ''is_weekend'' \<mapsto>
                I (case t of Some t \<Rightarrow> if 5 \<le> dt_dayofweek t then 1 else 0 | None \<Rightarrow> 0),
             ''is_month_end'' \<mapsto>
                (case t of Some t \<Rightarrow> I (if dt_is_month_end t then 1 else 0) | None \<Rightarrow> I 0),
             ''is_month_start'' \<mapsto>
                (case t of Some t \<Rightarrow> I (if dt_is_month_start t then 1 else 0) | None \<Rightarrow> I 0),
             ''clicks_per_impression'' \<mapsto> F (fdiv y i),
             ''position_impact'' \<mapsto> F (fdiv (Fin 1) p))"
    by blast
  have "cell_at r ''clicks_per_impression'' = F (fdiv y i)"
    unfolding r by (simp add: cell_at_def)
  moreover have "cell_at r ''position_impact'' = F (fdiv (Fin 1) p)"
    unfolding r by (simp add: cell_at_def)
  ultimately show ?thesis using y i p by blast
qed

text \<open>
  C9. The two divisions of \<open>_add_features\<close> are unguarded. On a table whose y,
  Impressions and position are finite numbers, the zero-divisor branch of the division is
  never taken, so that clicks_per_impression and position_impact are finite in every row,
  if and only if Impressions and position are nonzero in every row. (numpy raises nothing
  on a zero divisor: the branch yields nan or an infinity.)
\<close>

theorem add_features_division_by_zero:
  assumes "add_features h df = Inr (h', df')" and "df < length h"
    and "\<forall>r \<in> set (rows (h ! df)).
            as_float (cell_at r ''y'') = Inr (Fin (y r))
          \<and> as_float (cell_at r ''Impressions'') = Inr (Fin (impressions r))
          \<and> as_float (cell_at r ''position'') = Inr (Fin (position r))"
  shows "(\<forall>r \<in> set (rows (h ! df)). impressions r \<noteq> 0 \<and> position r \<noteq> 0)
       \<longleftrightarrow> (\<forall>r' \<in> set (rows (h' ! df')).
              is_fin_cell (cell_at r' ''clicks_per_impression'')
            \<and> is_fin_cell (cell_at r' ''position_impact''))"
proof -
  from assms(1) have run: "run h df feature_steps = Inr h'" and df': "df' = df"
    by (auto simp: add_features_def bnd_Inr_iff)
  from run_Inr [OF run assms(2)]
  have rel: "list_all2 (\<lambda>r r'. row_run feature_steps r = Inr r') (rows (h ! df)) (rows (h' ! df))"
    by simp
  have "list_all2 (\<lambda>r r'. (impressions r \<noteq> 0 \<and> position r \<noteq> 0)
          = (is_fin_cell (cell_at r' ''clicks_per_impression'')
             \<and> is_fin_cell (cell_at r' ''position_impact'')))
        (rows (h ! df)) (rows (h' ! df))"
    using rel
  proof (rule list.rel_mono_strong)
    fix r r' assume r: "r \<in> set (rows (h ! df))" and rr: "row_run feature_steps r = Inr r'"
    from feature_steps_div [OF rr] obtain yy ii pp where
      "as_float (cell_at r ''y'') = Inr yy" "as_float (cell_at r ''Impressions'') = Inr ii"
      "as_float (cell_at r ''position'') = Inr pp"
      and c: "cell_at r' ''clicks_per_impression'' = F (fdiv yy ii)"
        "cell_at r' ''position_impact'' = F (fdiv (Fin 1) pp)"
      by blast
    with assms(3) r have "yy = Fin (y r)" "ii = Fin (impressions r)" "pp = Fin (position r)"
      by auto
    then show "(impressions r \<noteq> 0 \<and> position r \<noteq> 0)
          = (is_fin_cell (cell_at r' ''clicks_per_impression'')
             \<and> is_fin_cell (cell_at r' ''position_impact''))"
      unfolding c by (simp add: is_fin_cell_def)
  qed
  from list_all2_ball_iff [OF this] show ?thesis unfolding df' .
qed

lemma add_features_one_row:
  obtains h' where "add_features [one_row_table i p] 0 = Inr (h', 0)"
proof -
  have "\<exists>h'. add_features [one_row_table i p] 0 = Inr (h', 0)"
    by (simp add: add_features_def feature_steps_def assign_def bnd_def setitem_def cell_at_def
        one_row_table_def dt_int_def dt_bool_int_def no_accessor_def dt_field_def dt_accessor_def)
  then show thesis by (elim exE) (rule that)
qed

theorem add_features_division_by_zero_witness:
  "(\<exists>h'. add_features [one_row_table 90 (5 / 2)] 0 = Inr (h', 0)
       \<and> is_fin_cell (cell_at (hd (rows (h' ! 0))) ''clicks_per_impression'')
       \<and> is_fin_cell (cell_at (hd (rows (h' ! 0))) ''position_impact''))
   \<and> (\<exists>h'. add_features [one_row_table 0 (5 / 2)] 0 = Inr (h', 0)
       \<and> \<not> (is_fin_cell (cell_at (hd (rows (h' ! 0))) ''clicks_per_impression'')
            \<and> is_fin_cell (cell_at (hd (rows (h' ! 0))) ''position_impact'')))"
proof -
  let ?y = "\<lambda>r. cell_real (cell_at r ''y'')"
  let ?i = "\<lambda>r. cell_real (cell_at r ''Impressions'')"
  let ?p = "\<lambda>r. cell_real (cell_at r ''position'')"
  have l: "(0::nat) < length [one_row_table i p]" for i p by simp
  have fin: "\<forall>r \<in> set (rows ([one_row_table i p] ! 0)).
            as_float (cell_at r ''y'') = Inr (Fin (?y r))
          \<and> as_float (cell_at r ''Impressions'') = Inr (Fin (?i r))
          \<and> as_float (cell_at r ''position'') = Inr (Fin (?p r))" for i p
    by (simp add: one_row_table_def cell_at_def cell_real_def)
  have len: "length (rows (h' ! 0)) = 1" if "add_features [one_row_table i p] 0 = Inr (h', 0)" for h' i p
  proof -
    from that have "run [one_row_table i p] 0 feature_steps = Inr h'"
      by (auto simp: add_features_def bnd_Inr_iff)
    from run_Inr [OF this] have "length (rows (h' ! 0)) = length (rows ([one_row_table i p] ! 0))"
      by (auto dest: list_all2_lengthD)
    then show ?thesis by (simp add: one_row_table_def)
  qed
  have single: "(\<forall>r \<in> set xs. Q r) = Q (hd xs)" if "length xs = 1" for xs :: "row list" and Q
    using that by (cases xs) auto
  obtain h1 where h1: "add_features [one_row_table 90 (5 / 2)] 0 = Inr (h1, 0)"
    by (rule add_features_one_row)
  from add_features_division_by_zero [OF h1 l fin]
  have a: "is_fin_cell (cell_at (hd (rows (h1 ! 0))) ''clicks_per_impression'')
       \<and> is_fin_cell (cell_at (hd (rows (h1 ! 0))) ''position_impact'')"
    unfolding single [OF len [OF h1]]
    by (simp add: one_row_table_def cell_at_def cell_real_def)
  obtain h2 where h2: "add_features [one_row_table 0 (5 / 2)] 0 = Inr (h2, 0)"
    by (rule add_features_one_row)
  from add_features_division_by_zero [OF h2 l fin]
  have b: "\<not> (is_fin_cell (cell_at (hd (rows (h2 ! 0))) ''clicks_per_impression'')
       \<and> is_fin_cell (cell_at (hd (rows (h2 ! 0))) ''position_impact''))"
    unfolding single [OF len [OF h2]]
    by (simp add: one_row_table_def cell_at_def cell_real_def)
  from h1 a h2 b show ?thesis by blast
qed

section \<open>Properties of the analyzer\<close>

lemma foldl_fadd_Fin: "foldl fadd (Fin a) (map Fin xs) = Fin (a + sum_list xs)"
  by (induction xs arbitrary: a) (simp_all add: add.assoc)

lemma fsum_Fin: "fsum (map Fin xs) = Fin (sum_list xs)"
  by (simp add: fsum_def foldl_fadd_Fin)

lemma np_mean_Fin:
  "xs \<noteq> [] \<Longrightarrow> np_mean (map Fin xs) = Fin (sum_list xs / real (length xs))"
  by (simp add: np_mean_def fsum_Fin)

lemma np_std_Fin:
  assumes "xs \<noteq> []"
  shows "np_std (map Fin xs) =
           Fin (sqrt (sum_list (map (\<lambda>x. (x - sum_list xs / real (length xs))\<^sup>2) xs)
                      / real (length xs)))"
proof -
  define m where "m = sum_list xs / real (length xs)"
  have sq: "map (\<lambda>x. fmul (fabs (fsub x (Fin m))) (fabs (fsub x (Fin m)))) (map Fin xs)
          = map Fin (map (\<lambda>x. (x - m)\<^sup>2) xs)"
    by (simp add: fsub_def power2_eq_square)
  have nn: "0 \<le> sum_list (map (\<lambda>x. (x - m)\<^sup>2) xs) / real (length xs)"
    by (intro divide_nonneg_nonneg sum_list_nonneg) auto
  have len: "map (\<lambda>x. (x - m)\<^sup>2) xs \<noteq> []" using assms by simp
  show ?thesis
    unfolding np_std_def Let_def np_mean_Fin [OF assms] m_def [symmetric] sq np_mean_Fin [OF len]
    using nn by simp
qed

lemma sum_squares_zero:
  assumes "sum_list (map (\<lambda>x. (x - m)\<^sup>2) xs) = (0::real)" and "x \<in> set xs"
  shows "x = m"
proof -
  have "\<forall>v \<in> set (map (\<lambda>x. (x - m)\<^sup>2) xs). v = 0"
    using assms(1) by (subst (asm) sum_list_nonneg_eq_0_iff) auto
  with assms(2) show ?thesis by auto
qed

lemma gt3_div_sqrt: "0 < v \<Longrightarrow> (3 < \<bar>d\<bar> / sqrt v) = (9 * v < d\<^sup>2)"
proof -
  assume v: "0 < v"
  then have s: "0 < sqrt v" by simp
  have sq: "(3 * sqrt v)\<^sup>2 = 9 * v" using v by (simp add: power_mult_distrib)
  have "(3 < \<bar>d\<bar> / sqrt v) = (3 * sqrt v < \<bar>d\<bar>)" using s by (simp add: pos_less_divide_eq)
  also have "\<dots> = ((3 * sqrt v)\<^sup>2 < \<bar>d\<bar>\<^sup>2)"
  proof
    assume "3 * sqrt v < \<bar>d\<bar>"
    then show "(3 * sqrt v)\<^sup>2 < \<bar>d\<bar>\<^sup>2"
      using s by (intro power_strict_mono) auto
  next
    assume "(3 * sqrt v)\<^sup>2 < \<bar>d\<bar>\<^sup>2"
    then show "3 * sqrt v < \<bar>d\<bar>"
      by (rule power2_less_imp_less) simp
  qed
  finally show ?thesis unfolding sq by simp
qed

lemma map_filter_nth:
  "map (\<lambda>i. f (xs ! i)) (filter (\<lambda>i. p (xs ! i)) [0 ..< length xs]) = map f (filter p xs)"
proof -
  have "map f (filter p xs) = map f (filter p (map (\<lambda>i. xs ! i) [0 ..< length xs]))"
    by (simp add: map_nth)
  also have "\<dots> = map (\<lambda>i. f (xs ! i)) (filter (\<lambda>i. p (xs ! i)) [0 ..< length xs])"
    by (simp add: filter_map comp_def)
  finally show ?thesis by simp
qed

lemma zscore_Fin:
  assumes "xs \<noteq> []"
  shows "zscore (map Fin xs) = map (\<lambda>x. fdiv (Fin (x - mean_of xs)) (Fin (population_std xs))) xs"
  unfolding zscore_def Let_def np_mean_Fin [OF assms] np_std_Fin [OF assms]
  by (simp add: fsub_def mean_of_def population_std_def sum_sq_dev_def)

lemma population_std_zero:
  assumes "population_std xs = 0" and "x \<in> set xs"
  shows "x = mean_of xs"
proof -
  from assms(2) have "0 < real (length xs)" by (cases xs) auto
  with assms(1) have "sum_sq_dev xs = 0" by (simp add: population_std_def)
  then show ?thesis using assms(2) unfolding sum_sq_dev_def by (rule sum_squares_zero)
qed

lemma population_std_nonneg: "0 \<le> population_std xs"
  unfolding population_std_def sum_sq_dev_def
  by (intro real_sqrt_ge_zero divide_nonneg_nonneg sum_list_nonneg) auto

text \<open>Whether a value of a finite series is flagged, and the absolute z-score reported.\<close>

lemma abs_zscore_flag:
  assumes "x \<in> set xs"
  shows "fgt (fabs (fdiv (Fin (x - mean_of xs)) (Fin (population_std xs)))) (Fin c)
       = (population_std xs \<noteq> 0 \<and> c < \<bar>x - mean_of xs\<bar> / population_std xs)"
proof (cases "population_std xs = 0")
  case True
  with population_std_zero [OF True assms] show ?thesis by simp
next
  case False
  with population_std_nonneg [of xs] show ?thesis by (simp add: abs_divide)
qed

lemma abs_zscore_value:
  assumes "population_std xs \<noteq> 0"
  shows "fabs (fdiv (Fin (x - mean_of xs)) (Fin (population_std xs)))
       = Fin (\<bar>x - mean_of xs\<bar> / population_std xs)"
  using assms population_std_nonneg [of xs] by (simp add: abs_divide)

lemma detect_anomalies_finite:
  assumes ds: "''ds'' \<in> set (columns df)" and yc: "''y'' \<in> set (columns df)"
    and fin: "\<forall>r \<in> set (rows df). as_float (cell_at r ''y'') = Inr (Fin (y r))"
  shows "detect_anomalies df (Fin c) =
           Inr (map (\<lambda>r. [''date'' \<mapsto> cell_at r ''ds'', ''clicks'' \<mapsto> cell_at r ''y'',
                          ''z_score'' \<mapsto> F (Fin (\<bar>y r - mean_of (map y (rows df))\<bar>
                                                   / population_std (map y (rows df))))])
                    (filter (\<lambda>r. population_std (map y (rows df)) \<noteq> 0
                                \<and> c < \<bar>y r - mean_of (map y (rows df))\<bar>
                                        / population_std (map y (rows df)))
                            (rows df)))"
proof -
  define R where "R = rows df"
  define ys where "ys = map y R"
  define z where "z = (\<lambda>r. fabs (fdiv (Fin (y r - mean_of ys)) (Fin (population_std ys))))"
  define report where "report = (\<lambda>r. [''date'' \<mapsto> cell_at r ''ds'', ''clicks'' \<mapsto> cell_at r ''y'',
                          ''z_score'' \<mapsto> F (z r)])"
  have g: "getitem df ''y'' = Inr (map (\<lambda>r. cell_at r ''y'') R)"
    using yc by (simp add: getitem_def R_def)
  have m: "mapM as_float (map (\<lambda>r. cell_at r ''y'') R) = Inr (map Fin ys)"
    unfolding ys_def map_map comp_def
    by (rule mapM_map_comp) (use fin in \<open>simp add: R_def\<close>)
  have zs: "map fabs (zscore (map Fin ys)) = map z R"
  proof (cases "R = []")
    case True
    then show ?thesis by (simp add: ys_def zscore_def)
  next
    case False
    then have "ys \<noteq> []" by (simp add: ys_def)
    from zscore_Fin [OF this] show ?thesis by (simp add: ys_def z_def comp_def)
  qed
  have idx: "filter (\<lambda>i. map (\<lambda>z. fgt z (Fin c)) (map z R) ! i) [0 ..< length R]
           = filter (\<lambda>i. fgt (z (R ! i)) (Fin c)) [0 ..< length R]"
    by (rule filter_cong) simp_all
  have each: "bnd (loc df idx ''ds'') (\<lambda>date.
              bnd (loc df idx ''y'') (\<lambda>clicks.
              bnd (array_get (map z R) idx) (\<lambda>zv.
                Inr [''date'' \<mapsto> date, ''clicks'' \<mapsto> clicks, ''z_score'' \<mapsto> F zv])))
            = Inr (report (R ! idx))"
    if "idx \<in> set (filter (\<lambda>i. fgt (z (R ! i)) (Fin c)) [0 ..< length R])" for idx
  proof -
    from that have "idx < length R" by simp
    then show ?thesis
      using ds yc by (simp add: loc_def array_get_def bnd_def report_def R_def)
  qed
  have run: "detect_anomalies df (Fin c) =
      Inr (map (\<lambda>i. report (R ! i)) (filter (\<lambda>i. fgt (z (R ! i)) (Fin c)) [0 ..< length R]))"
    unfolding detect_anomalies_def g bnd_Inr m Let_def zs R_def [symmetric] idx
    by (rule mapM_map) (rule each)
  have "map (\<lambda>i. report (R ! i)) (filter (\<lambda>i. fgt (z (R ! i)) (Fin c)) [0 ..< length R])
      = map report (filter (\<lambda>r. fgt (z r) (Fin c)) R)"
    by (rule map_filter_nth)
  also have "filter (\<lambda>r. fgt (z r) (Fin c)) R
      = filter (\<lambda>r. population_std ys \<noteq> 0 \<and> c < \<bar>y r - mean_of ys\<bar> / population_std ys) R"
  proof (rule filter_cong [OF refl])
    fix r assume "r \<in> set R"
    then have "y r \<in> set ys" by (simp add: ys_def)
    from abs_zscore_flag [OF this]
    show "fgt (z r) (Fin c)
        = (population_std ys \<noteq> 0 \<and> c < \<bar>y r - mean_of ys\<bar> / population_std ys)"
      unfolding z_def .
  qed
  also have "map report \<dots>
      = map (\<lambda>r. [''date'' \<mapsto> cell_at r ''ds'', ''clicks'' \<mapsto> cell_at r ''y'',
                  ''z_score'' \<mapsto> F (Fin (\<bar>y r - mean_of ys\<bar> / population_std ys))]) \<dots>"
  proof (rule map_cong [OF refl])
    fix r
    assume "r \<in> set (filter (\<lambda>r. population_std ys \<noteq> 0
                \<and> c < \<bar>y r - mean_of ys\<bar> / population_std ys) R)"
    then have "population_std ys \<noteq> 0" by simp
    from abs_zscore_value [OF this]
    show "report r = [''date'' \<mapsto> cell_at r ''ds'', ''clicks'' \<mapsto> cell_at r ''y'',
                  ''z_score'' \<mapsto> F (Fin (\<bar>y r - mean_of ys\<bar> / population_std ys))]"
      unfolding report_def z_def by simp
  qed
  finally show ?thesis unfolding run ys_def R_def by simp
qed

lemma filter_not_nan_Fin: "filter (\<lambda>x. \<not> is_nan x) (map Fin xs) = map Fin xs"
  by (induction xs) simp_all

lemma series_mean_Fin: "xs \<noteq> [] \<Longrightarrow> series_mean (map Fin xs) = Fin (mean_of xs)"
  by (simp add: series_mean_def filter_not_nan_Fin fsum_Fin mean_of_def)

lemma sum_sq_dev_nonneg: "0 \<le> sum_sq_dev xs"
  unfolding sum_sq_dev_def by (intro sum_list_nonneg) auto

lemma series_std_Fin:
  assumes "2 \<le> length xs"
  shows "series_std (map Fin xs) = Fin (sample_std xs)"
proof -
  have le: "\<not> length xs \<le> 1" using assms by simp
  have ne: "xs \<noteq> []" using assms by auto
  have a: "fdiv (fsum (map Fin xs)) (Fin (real (length xs))) = Fin (mean_of xs)"
    using ne by (simp add: fsum_Fin mean_of_def)
  have sq: "map (\<lambda>x. fmul (fsub (Fin (mean_of xs)) x) (fsub (Fin (mean_of xs)) x)) (map Fin xs)
          = map Fin (map (\<lambda>x. (x - mean_of xs)\<^sup>2) xs)"
    by (simp add: fsub_def power2_eq_square algebra_simps)
  have b: "fdiv (fsum (map Fin (map (\<lambda>x. (x - mean_of xs)\<^sup>2) xs))) (Fin (real (length xs - 1)))
         = Fin (sum_sq_dev xs / real (length xs - 1))"
    unfolding fsum_Fin sum_sq_dev_def using assms by simp
  have nn: "\<not> sum_sq_dev xs / real (length xs - 1) < 0"
    using sum_sq_dev_nonneg [of xs] by (simp add: not_less divide_nonneg_nonneg)
  have "series_std (map Fin xs) = fsqrt (Fin (sum_sq_dev xs / real (length xs - 1)))"
    unfolding series_std_def Let_def filter_not_nan_Fin length_map
    by (simp only: le if_False a sq b)
  also have "\<dots> = Fin (sample_std xs)"
    unfolding fsqrt.simps sample_std_def by (simp only: nn if_False)
  finally show ?thesis .
qed

lemma series_std_short: "length xs \<le> 1 \<Longrightarrow> series_std (map Fin xs) = NaN"
  by (simp add: series_std_def filter_not_nan_Fin)

lemma sample_std_zero:
  assumes "sample_std xs = 0" and "2 \<le> length xs" and "x \<in> set xs"
  shows "x = mean_of xs"
proof -
  from assms(2) have "0 < real (length xs - 1)" by simp
  with assms(1) have "sum_sq_dev xs = 0" by (simp add: sample_std_def)
  then show ?thesis using assms(3) unfolding sum_sq_dev_def by (rule sum_squares_zero)
qed

lemma sample_std_nonneg: "0 \<le> sample_std xs"
  unfolding sample_std_def using sum_sq_dev_nonneg [of xs]
  by (intro real_sqrt_ge_zero divide_nonneg_nonneg) auto

lemma outlier_flag:
  assumes "x \<in> set xs"
  shows "fgt (fabs (fdiv (fsub (Fin x) (series_mean (map Fin xs))) (series_std (map Fin xs)))) (Fin c)
       = (2 \<le> length xs \<and> sample_std xs \<noteq> 0 \<and> c < \<bar>x - mean_of xs\<bar> / sample_std xs)"
proof (cases "2 \<le> length xs")
  case False
  then have "length xs \<le> 1" by simp
  from series_std_short [OF this] False show ?thesis
    by (cases "series_mean (map Fin xs)") (simp_all add: fsub_def)
next
  case True
  then have ne: "xs \<noteq> []" by auto
  show ?thesis
  proof (cases "sample_std xs = 0")
    case z: True
    from sample_std_zero [OF z True assms] z True show ?thesis
      by (simp add: series_mean_Fin [OF ne] series_std_Fin [OF True] fsub_def)
  next
    case False
    with sample_std_nonneg [of xs] True show ?thesis
      by (simp add: series_mean_Fin [OF ne] series_std_Fin [OF True] fsub_def abs_divide)
  qed
qed

lemma handle_outliers_finite:
  assumes "df < length h" and yc: "''y'' \<in> set (columns (h ! df))"
    and fin: "\<forall>r \<in> set (rows (h ! df)). as_float (cell_at r ''y'') = Inr (Fin (y r))"
  shows "handle_outliers h df (Fin c) =
           Inr (h @ [(setitem (h ! df) ''is_outlier''
                        (map (\<lambda>r. B (2 \<le> length (rows (h ! df))
                                     \<and> sample_std (map y (rows (h ! df))) \<noteq> 0
                                     \<and> c < \<bar>y r - mean_of (map y (rows (h ! df)))\<bar>
                                             / sample_std (map y (rows (h ! df)))))
                             (rows (h ! df))))],
                length h)"
proof -
  define R where "R = rows (h ! df)"
  define ys where "ys = map y R"
  have h0: "(h @ [h ! df]) ! length h = h ! df" by simp
  have g: "getitem (h ! df) ''y'' = Inr (map (\<lambda>r. cell_at r ''y'') R)"
    using yc by (simp add: getitem_def R_def)
  have m: "mapM as_float (map (\<lambda>r. cell_at r ''y'') R) = Inr (map Fin ys)"
    unfolding ys_def map_map comp_def
    by (rule mapM_map_comp) (use fin in \<open>simp add: R_def\<close>)
  have fl: "map (\<lambda>z. B (fgt z (Fin c)))
              (map (\<lambda>v. fabs (fdiv (fsub v (series_mean (map Fin ys))) (series_std (map Fin ys))))
                   (map Fin ys))
          = map (\<lambda>r. B (2 \<le> length R \<and> sample_std ys \<noteq> 0
                         \<and> c < \<bar>y r - mean_of ys\<bar> / sample_std ys)) R"
    unfolding ys_def map_map comp_def
  proof (rule map_cong [OF refl])
    fix r assume "r \<in> set R"
    then have "y r \<in> set (map y R)" by simp
    from outlier_flag [OF this, of c]
    show "B (fgt (fabs (fdiv (fsub (Fin (y r)) (series_mean (map (\<lambda>x. Fin (y x)) R)))
                   (series_std (map (\<lambda>x. Fin (y x)) R)))) (Fin c))
        = B (2 \<le> length R \<and> sample_std (map y R) \<noteq> 0
               \<and> c < \<bar>y r - mean_of (map y R)\<bar> / sample_std (map y R))"
      by (simp add: comp_def)
  qed
  show ?thesis
    unfolding handle_outliers_def df_copy_def prod.case h0 g bnd_Inr m Let_def fl
    by (simp add: R_def ys_def)
qed

section \<open>The two outlier flaggings\<close>




lemma spike_ys:
  "map (\<lambda>r. cell_real (cell_at r ''y'')) (rows spike_days) = [1, 0, 0, 0, 0, 0, 0, 0, 0, 0, 4]"
  by (simp add: spike_days_def cell_at_def cell_real_def)

lemma spike_mean: "mean_of [1, 0, 0, 0, 0, 0, 0, 0, 0, 0, 4] = 5 / 11"
  by (simp add: mean_of_def)

lemma spike_ssd: "sum_sq_dev [1, 0, 0, 0, 0, 0, 0, 0, 0, 0, 4] = 162 / 11"
  by (simp add: sum_sq_dev_def spike_mean power2_eq_square)

lemma spike_fin:
  "\<forall>r \<in> set (rows spike_days).
     as_float (cell_at r ''y'') = Inr (Fin (cell_real (cell_at r ''y'')))"
  by (simp add: spike_days_def cell_at_def cell_real_def)





lemma sample_flag_imp_population:
  assumes n: "2 \<le> length xs" and s: "sample_std xs \<noteq> 0"
    and c: "c < \<bar>d\<bar> / sample_std xs"
  shows "population_std xs \<noteq> 0 \<and> c < \<bar>d\<bar> / population_std xs"
proof -
  define SS where "SS = sum_sq_dev xs"
  have n1: "0 < real (length xs - 1)" and n0: "0 < real (length xs)" using n by auto
  have le: "real (length xs - 1) \<le> real (length xs)" by simp
  have "SS \<noteq> 0" using s unfolding sample_std_def SS_def by auto
  with sum_sq_dev_nonneg [of xs] have pos: "0 < SS" unfolding SS_def by simp
  have sp: "0 < population_std xs"
    unfolding population_std_def SS_def [symmetric] using pos n0 by simp
  have prod: "0 < real (length xs) * real (length xs - 1)"
    using n0 n1 by (rule mult_pos_pos)
  have "SS / real (length xs) \<le> SS / real (length xs - 1)"
    by (rule divide_left_mono [OF le _ prod]) (use pos in simp)
  then have ps: "population_std xs \<le> sample_std xs"
    unfolding population_std_def sample_std_def SS_def [symmetric] by simp
  have "0 < sample_std xs * population_std xs"
    using sp ps by (intro mult_pos_pos) auto
  then have "\<bar>d\<bar> / sample_std xs \<le> \<bar>d\<bar> / population_std xs"
    by (intro divide_left_mono [OF ps]) auto
  with c sp show ?thesis by simp
qed

lemma spike_population_flag:
  "(population_std [1, 0, 0, 0, 0, 0, 0, 0, 0, 0, 4] \<noteq> 0
     \<and> 3 < \<bar>x - mean_of [1, 0, 0, 0, 0, 0, 0, 0, 0, 0, 4]\<bar>
           / population_std [1, 0, 0, 0, 0, 0, 0, 0, 0, 0, 4])
   = (1458 / 121 < (x - 5 / 11)\<^sup>2)"
proof -
  have p: "population_std [1, 0, 0, 0, 0, 0, 0, 0, 0, 0, 4] = sqrt (162 / 121)"
    by (simp add: population_std_def spike_ssd)
  have "sqrt (162 / 121) \<noteq> 0" by simp
  moreover have "(3 < \<bar>x - 5 / 11\<bar> / sqrt (162 / 121)) = (9 * (162 / 121) < (x - 5 / 11)\<^sup>2)"
    by (rule gt3_div_sqrt) simp
  ultimately show ?thesis unfolding p spike_mean by simp
qed

lemma spike_sample_flag:
  "(2 \<le> length (rows spike_days)
     \<and> sample_std [1, 0, 0, 0, 0, 0, 0, 0, 0, 0, 4] \<noteq> 0
     \<and> 3 < \<bar>x - mean_of [1, 0, 0, 0, 0, 0, 0, 0, 0, 0, 4]\<bar>
           / sample_std [1, 0, 0, 0, 0, 0, 0, 0, 0, 0, 4])
   = (729 / 55 < (x - 5 / 11)\<^sup>2)"
proof -
  have p: "sample_std [1, 0, 0, 0, 0, 0, 0, 0, 0, 0, 4] = sqrt (81 / 55)"
    by (simp add: sample_std_def spike_ssd)
  have l: "2 \<le> length (rows spike_days)" by (simp add: spike_days_def)
  have "sqrt (81 / 55) \<noteq> 0" by simp
  moreover have "(3 < \<bar>x - 5 / 11\<bar> / sqrt (81 / 55)) = (9 * (81 / 55) < (x - 5 / 11)\<^sup>2)"
    by (rule gt3_div_sqrt) simp
  ultimately show ?thesis unfolding p spike_mean using l by simp
qed

lemma detect_anomalies_spike:
  "\<exists>z. detect_anomalies spike_days (Fin 3) =
     Inr [[''date'' \<mapsto> T 10, ''clicks'' \<mapsto> I 4, ''z_score'' \<mapsto> F (Fin z)]]"
proof -
  have c: "''ds'' \<in> set (columns spike_days)" "''y'' \<in> set (columns spike_days)"
    by (simp_all add: spike_days_def)
  show ?thesis
    unfolding detect_anomalies_finite [OF c spike_fin] spike_ys spike_population_flag
    by (simp add: spike_days_def cell_at_def cell_real_def power2_eq_square)
       (rule exI, rule refl)
qed

lemma handle_outliers_spike:
  "\<exists>h' out. handle_outliers [spike_days] 0 (Fin 3) = Inr (h', out)
     \<and> filter (\<lambda>r. r ''is_outlier'' = Some (B True)) (rows (h' ! out)) = []"
proof -
  have l: "(0::nat) < length [spike_days]" by simp
  have c: "''y'' \<in> set (columns ([spike_days] ! 0))" by (simp add: spike_days_def)
  have f: "\<forall>r \<in> set (rows ([spike_days] ! 0)).
     as_float (cell_at r ''y'') = Inr (Fin (cell_real (cell_at r ''y'')))"
    using spike_fin by simp
  have n: "[spike_days] ! 0 = spike_days" by simp
  show ?thesis
    unfolding handle_outliers_finite [OF l c f] n spike_ys spike_sample_flag
    by (simp add: spike_days_def cell_at_def cell_real_def power2_eq_square setitem_def)
qed

text \<open>
  C7, as the code has it. On a series of finite numbers \<open>handle_outliers\<close> marks a row
  when \<open>|y - mean|\<close> divided by the sample standard deviation (the divisor is the count less
  one) exceeds the threshold, and \<open>_detect_anomalies\<close> reports it when \<open>|y - mean|\<close>
  divided by the population standard deviation does. Every marked row is reported; the
  converse fails.
\<close>

theorem outliers_subset_anomalies:
  fixes h :: heap and df :: nat and y :: "row \<Rightarrow> real" and c :: real
  defines "marked \<equiv> \<lambda>r. 2 \<le> length (rows (h ! df))
              \<and> sample_std (map y (rows (h ! df))) \<noteq> 0
              \<and> c < \<bar>y r - mean_of (map y (rows (h ! df)))\<bar> / sample_std (map y (rows (h ! df)))"
    and "reported \<equiv> \<lambda>r. population_std (map y (rows (h ! df))) \<noteq> 0
              \<and> c < \<bar>y r - mean_of (map y (rows (h ! df)))\<bar>
                    / population_std (map y (rows (h ! df)))"
  assumes "df < length h"
    and "''ds'' \<in> set (columns (h ! df))" and "''y'' \<in> set (columns (h ! df))"
    and "\<forall>r \<in> set (rows (h ! df)). as_float (cell_at r ''y'') = Inr (Fin (y r))"
  shows "handle_outliers h df (Fin c) =
           Inr (h @ [setitem (h ! df) ''is_outlier'' (map (\<lambda>r. B (marked r)) (rows (h ! df)))],
                length h)
       \<and> detect_anomalies (h ! df) (Fin c) =
           Inr (map (\<lambda>r. [''date'' \<mapsto> cell_at r ''ds'', ''clicks'' \<mapsto> cell_at r ''y'',
                          ''z_score'' \<mapsto> F (Fin (\<bar>y r - mean_of (map y (rows (h ! df)))\<bar>
                                                   / population_std (map y (rows (h ! df)))))])
                    (filter reported (rows (h ! df))))
       \<and> (\<forall>r. marked r \<longrightarrow> reported r)"
proof (intro conjI allI impI)
  show "handle_outliers h df (Fin c) =
           Inr (h @ [setitem (h ! df) ''is_outlier'' (map (\<lambda>r. B (marked r)) (rows (h ! df)))],
                length h)"
    unfolding marked_def using assms(3,5,6) by (rule handle_outliers_finite)
  show "detect_anomalies (h ! df) (Fin c) =
           Inr (map (\<lambda>r. [''date'' \<mapsto> cell_at r ''ds'', ''clicks'' \<mapsto> cell_at r ''y'',
                          ''z_score'' \<mapsto> F (Fin (\<bar>y r - mean_of (map y (rows (h ! df)))\<bar>
                                                   / population_std (map y (rows (h ! df)))))])
                    (filter reported (rows (h ! df))))"
    unfolding reported_def using assms(4,5,6) by (rule detect_anomalies_finite)
next
  fix r assume "marked r"
  then have "2 \<le> length (map y (rows (h ! df)))" "sample_std (map y (rows (h ! df))) \<noteq> 0"
    "c < \<bar>y r - mean_of (map y (rows (h ! df)))\<bar> / sample_std (map y (rows (h ! df)))"
    unfolding marked_def by simp_all
  then show "reported r" unfolding reported_def by (rule sample_flag_imp_population)
qed

lemma outlier_ys:
  "map (\<lambda>r. cell_real (cell_at r ''y'')) (rows outlier_days) = [0, 0, 0, 0, 0, 0, 0, 0, 0, 0, 0, 12]"
  by (simp add: outlier_days_def cell_at_def cell_real_def)

lemma outlier_mean: "mean_of [0, 0, 0, 0, 0, 0, 0, 0, 0, 0, 0, 12] = 1"
  by (simp add: mean_of_def)

lemma outlier_ssd: "sum_sq_dev [0, 0, 0, 0, 0, 0, 0, 0, 0, 0, 0, 12] = 132"
  by (simp add: sum_sq_dev_def outlier_mean power2_eq_square)

lemma outlier_population_flag:
  "(population_std [0, 0, 0, 0, 0, 0, 0, 0, 0, 0, 0, 12] \<noteq> 0
     \<and> 3 < \<bar>x - mean_of [0, 0, 0, 0, 0, 0, 0, 0, 0, 0, 0, 12]\<bar>
           / population_std [0, 0, 0, 0, 0, 0, 0, 0, 0, 0, 0, 12])
   = (99 < (x - 1)\<^sup>2)"
proof -
  have p: "population_std [0, 0, 0, 0, 0, 0, 0, 0, 0, 0, 0, 12] = sqrt 11"
    by (simp add: population_std_def outlier_ssd)
  have "sqrt 11 \<noteq> (0::real)" by simp
  moreover have "(3 < \<bar>x - 1\<bar> / sqrt 11) = (9 * 11 < (x - 1)\<^sup>2)"
    by (rule gt3_div_sqrt) simp
  ultimately show ?thesis unfolding p outlier_mean by simp
qed

lemma outlier_sample_flag:
  "(2 \<le> length (rows outlier_days)
     \<and> sample_std [0, 0, 0, 0, 0, 0, 0, 0, 0, 0, 0, 12] \<noteq> 0
     \<and> 3 < \<bar>x - mean_of [0, 0, 0, 0, 0, 0, 0, 0, 0, 0, 0, 12]\<bar>
           / sample_std [0, 0, 0, 0, 0, 0, 0, 0, 0, 0, 0, 12])
   = (108 < (x - 1)\<^sup>2)"
proof -
  have p: "sample_std [0, 0, 0, 0, 0, 0, 0, 0, 0, 0, 0, 12] = sqrt 12"
    by (simp add: sample_std_def outlier_ssd)
  have l: "2 \<le> length (rows outlier_days)" by (simp add: outlier_days_def)
  have "sqrt 12 \<noteq> (0::real)" by simp
  moreover have "(3 < \<bar>x - 1\<bar> / sqrt 12) = (9 * 12 < (x - 1)\<^sup>2)"
    by (rule gt3_div_sqrt) simp
  ultimately show ?thesis unfolding p outlier_mean using l by simp
qed

lemma outlier_fin:
  "\<forall>r \<in> set (rows outlier_days).
     as_float (cell_at r ''y'') = Inr (Fin (cell_real (cell_at r ''y'')))"
  by (simp add: outlier_days_def cell_at_def cell_real_def)

theorem outliers_subset_anomalies_witness:
  "\<exists>h' out z. handle_outliers [outlier_days] 0 (Fin 3) = Inr (h', out)
     \<and> map (\<lambda>r. cell_at r ''is_outlier'') (rows (h' ! out)) =
           [B False, B False, B False, B False, B False, B False,
            B False, B False, B False, B False, B False, B True]
     \<and> detect_anomalies outlier_days (Fin 3) =
         Inr [[''date'' \<mapsto> T 11, ''clicks'' \<mapsto> I 12, ''z_score'' \<mapsto> F (Fin z)]]"
proof -
  have l: "(0::nat) < length [outlier_days]" by simp
  have c: "''ds'' \<in> set (columns ([outlier_days] ! 0))" "''y'' \<in> set (columns ([outlier_days] ! 0))"
    by (simp_all add: outlier_days_def)
  have f: "\<forall>r \<in> set (rows ([outlier_days] ! 0)).
     as_float (cell_at r ''y'') = Inr (Fin (cell_real (cell_at r ''y'')))"
    using outlier_fin by simp
  have n: "[outlier_days] ! 0 = outlier_days" by simp
  note th = outliers_subset_anomalies [OF l c f, of 3, unfolded n outlier_ys
      outlier_population_flag outlier_sample_flag]
  have a: "\<exists>h' out. handle_outliers [outlier_days] 0 (Fin 3) = Inr (h', out)
     \<and> map (\<lambda>r. cell_at r ''is_outlier'') (rows (h' ! out)) =
           [B False, B False, B False, B False, B False, B False,
            B False, B False, B False, B False, B False, B True]"
    unfolding conjunct1 [OF th]
    by (simp add: outlier_days_def cell_at_def cell_real_def power2_eq_square setitem_def)
  have b: "\<exists>z. detect_anomalies outlier_days (Fin 3) =
         Inr [[''date'' \<mapsto> T 11, ''clicks'' \<mapsto> I 12, ''z_score'' \<mapsto> F (Fin z)]]"
    unfolding conjunct1 [OF conjunct2 [OF th]]
    by (simp add: outlier_days_def cell_at_def cell_real_def power2_eq_square)
       (rule exI, rule refl)
  from a obtain h' out where a1: "handle_outliers [outlier_days] 0 (Fin 3) = Inr (h', out)"
    and a2: "map (\<lambda>r. cell_at r ''is_outlier'') (rows (h' ! out)) =
           [B False, B False, B False, B False, B False, B False,
            B False, B False, B False, B False, B False, B True]"
    by (elim exE conjE) (rule that)
  from b obtain z where b1: "detect_anomalies outlier_days (Fin 3) =
         Inr [[''date'' \<mapsto> T 11, ''clicks'' \<mapsto> I 12, ''z_score'' \<mapsto> F (Fin z)]]" ..
  from a1 a2 b1 show ?thesis by (intro exI conjI)
qed

text \<open>
  The two flaggings differ on eleven days of clicks 1, 0, ..., 0, 4 with threshold 3:
  \<open>handle_outliers\<close> marks no row, \<open>_detect_anomalies\<close> reports the last day.
\<close>

theorem outliers_differ_counterexample:
  "\<exists>h' out z. handle_outliers [spike_days] 0 (Fin 3) = Inr (h', out)
     \<and> filter (\<lambda>r. r ''is_outlier'' = Some (B True)) (rows (h' ! out)) = []
     \<and> detect_anomalies spike_days (Fin 3) =
         Inr [[''date'' \<mapsto> T 10, ''clicks'' \<mapsto> I 4, ''z_score'' \<mapsto> F (Fin z)]]"
  using handle_outliers_spike detect_anomalies_spike by blast

end
